theory Spec2Isabelle
  imports Complex_Main
begin

section \<open>Numbers: C++ \<open>float\<close> with its special values\<close>

text \<open>
  The interpolator computes with \<open>float\<close>. Several branches of the code depend on what a
  division by zero yields (\<open>is_nan(ratio)\<close> in \<open>smooth\<close>, the comparison of a new time with
  the last one in \<open>add_keyframe\<close>), so a \<open>float\<close> is modelled with its special values:
  a finite value \<open>Fin r\<close>, the two infinities and NaN. The arithmetic on special values
  follows IEEE 754. Three things are idealised: finite results are exact (no rounding to
  binary32), a finite result never overflows, and zero has no sign (a division of a
  non-zero finite value by zero takes the sign of the numerator).
\<close>

datatype flt = Fin real | PInf | NInf | NaN

instantiation flt :: "{zero, one, uminus, abs, ord}"
begin

definition zero_flt :: flt where
  "zero_flt = Fin 0"

definition one_flt :: flt where
  "one_flt = Fin 1"

fun uminus_flt :: "flt \<Rightarrow> flt" where
  "uminus_flt (Fin a) = Fin (- a)"
| "uminus_flt PInf = NInf"
| "uminus_flt NInf = PInf"
| "uminus_flt NaN = NaN"

fun abs_flt :: "flt \<Rightarrow> flt" where
  "abs_flt (Fin a) = Fin \<bar>a\<bar>"
| "abs_flt PInf = PInf"
| "abs_flt NInf = PInf"
| "abs_flt NaN = NaN"

text \<open>Every comparison with NaN is false.\<close>

fun less_flt :: "flt \<Rightarrow> flt \<Rightarrow> bool" where
  "less_flt (Fin a) (Fin b) = (a < b)"
| "less_flt (Fin a) PInf = True"
| "less_flt NInf (Fin b) = True"
| "less_flt NInf PInf = True"
| "less_flt _ _ = False"

fun less_eq_flt :: "flt \<Rightarrow> flt \<Rightarrow> bool" where
  "less_eq_flt (Fin a) (Fin b) = (a \<le> b)"
| "less_eq_flt NaN _ = False"
| "less_eq_flt _ NaN = False"
| "less_eq_flt _ PInf = True"
| "less_eq_flt NInf _ = True"
| "less_eq_flt _ _ = False"

instance ..

end

instantiation flt :: "{plus, times, inverse}"
begin

fun plus_flt :: "flt \<Rightarrow> flt \<Rightarrow> flt" where
  "plus_flt (Fin a) (Fin b) = Fin (a + b)"
| "plus_flt NaN _ = NaN"
| "plus_flt _ NaN = NaN"
| "plus_flt PInf NInf = NaN"
| "plus_flt NInf PInf = NaN"
| "plus_flt PInf _ = PInf"
| "plus_flt _ PInf = PInf"
| "plus_flt NInf _ = NInf"
| "plus_flt _ NInf = NInf"

fun times_flt :: "flt \<Rightarrow> flt \<Rightarrow> flt" where
  "times_flt (Fin a) (Fin b) = Fin (a * b)"
| "times_flt NaN _ = NaN"
| "times_flt _ NaN = NaN"
| "times_flt PInf b = (if Fin 0 < b then PInf else if b < Fin 0 then NInf else NaN)"
| "times_flt NInf b = (if Fin 0 < b then NInf else if b < Fin 0 then PInf else NaN)"
| "times_flt a PInf = (if Fin 0 < a then PInf else if a < Fin 0 then NInf else NaN)"
| "times_flt a NInf = (if Fin 0 < a then NInf else if a < Fin 0 then PInf else NaN)"

fun divide_flt :: "flt \<Rightarrow> flt \<Rightarrow> flt" where
  "divide_flt (Fin a) (Fin b) =
     (if b = 0 then (if a = 0 then NaN else if 0 < a then PInf else NInf)
      else Fin (a / b))"
| "divide_flt NaN _ = NaN"
| "divide_flt _ NaN = NaN"
| "divide_flt (Fin a) _ = Fin 0"
| "divide_flt PInf (Fin b) = (if 0 \<le> b then PInf else NInf)"
| "divide_flt NInf (Fin b) = (if 0 \<le> b then NInf else PInf)"
| "divide_flt _ _ = NaN"

fun inverse_flt :: "flt \<Rightarrow> flt" where
  "inverse_flt (Fin b) = (if b = 0 then PInf else Fin (1 / b))"
| "inverse_flt NaN = NaN"
| "inverse_flt _ = Fin 0"

instance ..

end

instantiation flt :: minus
begin

definition minus_flt :: "flt \<Rightarrow> flt \<Rightarrow> flt" where
  "minus_flt a b = a + (- b)"

instance ..

end

text \<open>\<open>std::sqrt\<close> and \<open>is_nan\<close> (the latter from a header of the library).\<close>

fun flt_sqrt :: "flt \<Rightarrow> flt" where
  "flt_sqrt (Fin a) = (if a < 0 then NaN else Fin (sqrt a))"
| "flt_sqrt PInf = PInf"
| "flt_sqrt NInf = NaN"
| "flt_sqrt NaN = NaN"

definition is_nan :: "flt \<Rightarrow> bool" where
  "is_nan v = (v = NaN)"

fun is_fin :: "flt \<Rightarrow> bool" where
  "is_fin (Fin a) = True"
| "is_fin _ = False"

section \<open>Vectors, quaternions, poses\<close>

text \<open>
  \<open>vec3\<close> and \<open>quat\<close> are classes of the library's core, which is not part of the sources
  at hand; their operations are modelled by their usual componentwise meaning (the
  specification speaks of chord distance, squared distance, dot product and negation).
  \<open>normalize\<close>, \<open>quat::squad\<close> and \<open>quat::squad_tangent\<close> are taken as parameters, see
  the record \<open>ext\<close> below.
\<close>

datatype vec3 = Vec3 flt flt flt

datatype quat = Quat flt flt flt flt

instantiation vec3 :: "{plus, minus}"
begin

fun plus_vec3 :: "vec3 \<Rightarrow> vec3 \<Rightarrow> vec3" where
  "plus_vec3 (Vec3 a b c) (Vec3 a' b' c') = Vec3 (a + a') (b + b') (c + c')"

fun minus_vec3 :: "vec3 \<Rightarrow> vec3 \<Rightarrow> vec3" where
  "minus_vec3 (Vec3 a b c) (Vec3 a' b' c') = Vec3 (a - a') (b - b') (c - c')"

instance ..

end

text \<open>Scalar times vector.\<close>

fun scale :: "flt \<Rightarrow> vec3 \<Rightarrow> vec3" where
  "scale s (Vec3 a b c) = Vec3 (s * a) (s * b) (s * c)"

fun distance2 :: "vec3 \<Rightarrow> vec3 \<Rightarrow> flt" where
  "distance2 (Vec3 a b c) (Vec3 a' b' c') =
     (a - a') * (a - a') + (b - b') * (b - b') + (c - c') * (c - c')"

definition distance :: "vec3 \<Rightarrow> vec3 \<Rightarrow> flt" where
  "distance u v = flt_sqrt (distance2 u v)"

fun quat_dot :: "quat \<Rightarrow> quat \<Rightarrow> flt" where
  "quat_dot (Quat a b c d) (Quat a' b' c' d') = a * a' + b * b' + c * c' + d * d'"

fun quat_negate :: "quat \<Rightarrow> quat" where
  "quat_negate (Quat a b c d) = Quat (- a) (- b) (- c) (- d)"

fun fin_vec3 :: "vec3 \<Rightarrow> bool" where
  "fin_vec3 (Vec3 a b c) = (is_fin a \<and> is_fin b \<and> is_fin c)"

fun fin_quat :: "quat \<Rightarrow> bool" where
  "fin_quat (Quat a b c d) = (is_fin a \<and> is_fin b \<and> is_fin c \<and> is_fin d)"

record Frame =
  position :: vec3
  orientation :: quat

text \<open>
  \<open>KeyFrameInterpolator::KeyFrame\<close>, with the members \<open>p_\<close>, \<open>q_\<close>, \<open>time_\<close>, \<open>tgP_\<close>
  and \<open>tgQ_\<close> (a record field cannot end with an underscore, and a field named \<open>time\<close>
  would capture that variable name everywhere, so the fields carry the prefix \<open>kf_\<close>).
  The constructor sets position, orientation and time; the tangents are
  default-constructed members and are written by \<open>computeTangent\<close> before they are ever
  read.
\<close>

record KeyFrame =
  kf_position :: vec3
  kf_orientation :: quat
  kf_time :: flt
  kf_tgP :: vec3
  kf_tgQ :: quat

definition new_KeyFrame :: "Frame \<Rightarrow> flt \<Rightarrow> KeyFrame" where
  "new_KeyFrame fr t =
     \<lparr>kf_position = position fr, kf_orientation = orientation fr, kf_time = t,
      kf_tgP = Vec3 (Fin 0) (Fin 0) (Fin 0),
      kf_tgQ = Quat (Fin 0) (Fin 0) (Fin 0) (Fin 1)\<rparr>"

section \<open>The interpolator's state\<close>

text \<open>
  The members of \<open>KeyFrameInterpolator\<close> that the operations below read or write,
  named as in the class without the trailing underscore. The
  keyframes are owned by the track, one allocation each, so the vector of pointers is a
  list of values. \<open>timer_stopped\<close> is the stop request of \<open>timer_\<close>; \<open>log_msgs\<close> collects
  the messages written with \<open>LOG(ERROR)\<close>. The two drawables are not modelled.
\<close>

record KeyFrameInterpolator =
  fps :: int
  interpolation_speed :: flt
  interpolation_started :: bool
  last_stopped_index :: int
  pathIsValid :: bool
  keyframes :: "KeyFrame list"
  interpolated_path :: "Frame list"
  timer_stopped :: bool
  log_msgs :: "string list"

definition stop_interpolation :: "KeyFrameInterpolator \<Rightarrow> KeyFrameInterpolator" where
  "stop_interpolation st = st\<lparr>timer_stopped := True, interpolation_started := False\<rparr>"

text \<open>\<open>add_keyframe(frame, time)\<close>: the three statements after the \<open>if\<close> run on both branches.\<close>

definition add_keyframe :: "KeyFrameInterpolator \<Rightarrow> Frame \<Rightarrow> flt \<Rightarrow> KeyFrameInterpolator" where
  "add_keyframe st frame time =
     (let st1 =
        (if keyframes st \<noteq> [] \<and> kf_time (last (keyframes st)) \<ge> time
         then st\<lparr>log_msgs := log_msgs st @ [''time is not monotone'']\<rparr>
         else st\<lparr>keyframes := keyframes st @ [new_KeyFrame frame time]\<rparr>)
      in stop_interpolation (st1\<lparr>pathIsValid := False, last_stopped_index := 0\<rparr>))"

text \<open>
  \<open>delete_last_keyframe\<close>: \<open>pop_back\<close> on an empty vector is undefined behaviour; the model
  returns \<open>None\<close> there.
\<close>

definition delete_last_keyframe :: "KeyFrameInterpolator \<Rightarrow> KeyFrameInterpolator option" where
  "delete_last_keyframe st =
     (if keyframes st = [] then None
      else Some (stop_interpolation
        (st\<lparr>keyframes := butlast (keyframes st), pathIsValid := False,
            last_stopped_index := 0\<rparr>)))"

text \<open>
  \<open>add_keyframe(frame)\<close>, in the branch that is compiled (\<open>#else\<close>).
  \<open>period_reference_distance\<close> is a function-local \<open>static\<close>: one variable for the whole
  process, shared by every \<open>KeyFrameInterpolator\<close> and alive across calls. It is therefore
  not part of an interpolator's state: every function that reaches \<open>add_keyframe(frame)\<close>
  takes its current value and returns its new value beside the interpolator.
  \<open>auto_time\<close> is the body up to the final call: the time it computes, and the value of
  the \<open>static\<close> afterwards (written when the track holds exactly one keyframe).
\<close>

definition auto_time :: "flt \<Rightarrow> KeyFrameInterpolator \<Rightarrow> Frame \<Rightarrow> flt \<times> flt" where
  "auto_time period_reference_distance st frame =
     (if keyframes st = [] then (Fin 0, period_reference_distance)
      else if length (keyframes st) = 1 then
        (Fin 1, distance (kf_position (keyframes st ! 0)) (position frame))
      else
        (kf_time (last (keyframes st))
           + Fin 1 * distance (kf_position (last (keyframes st))) (position frame)
               / period_reference_distance,
         period_reference_distance))"

definition add_keyframe_auto ::
  "flt \<times> KeyFrameInterpolator \<Rightarrow> Frame \<Rightarrow> flt \<times> KeyFrameInterpolator" where
  "add_keyframe_auto ps frame =
     (case auto_time (fst ps) (snd ps) frame of
        (time, period_reference_distance) \<Rightarrow>
          (period_reference_distance, add_keyframe (snd ps) frame time))"

definition delete_path :: "KeyFrameInterpolator \<Rightarrow> KeyFrameInterpolator" where
  "delete_path st =
     (stop_interpolation st)\<lparr>keyframes := [], interpolated_path := [],
        pathIsValid := False, last_stopped_index := 0\<rparr>"

definition firstTime :: "KeyFrameInterpolator \<Rightarrow> flt" where
  "firstTime st = (if keyframes st = [] then Fin 0 else kf_time (hd (keyframes st)))"

definition lastTime :: "KeyFrameInterpolator \<Rightarrow> flt" where
  "lastTime st = (if keyframes st = [] then Fin 0 else kf_time (last (keyframes st)))"

definition duration :: "KeyFrameInterpolator \<Rightarrow> flt" where
  "duration st = lastTime st - firstTime st"

section \<open>Loading a track\<close>

text \<open>
  \<open>read_keyframes\<close> reads through an \<open>ifstream\<close> with the extraction operators of the
  library. What the stream delivers is a parameter: a file that cannot be opened is
  \<open>None\<close>; an open one gives the number read into \<open>num_key_frames\<close> and, for each round
  \<open>j\<close> of the loop, the pose that round extracts. The function takes and returns the
  \<open>static\<close> of \<open>add_keyframe(frame)\<close> beside the interpolator.
\<close>

record kf_stream =
  num_key_frames :: int
  frame_read :: "nat \<Rightarrow> Frame"

definition read_keyframes ::
  "(string \<Rightarrow> kf_stream option) \<Rightarrow> flt \<times> KeyFrameInterpolator \<Rightarrow> string
     \<Rightarrow> bool \<times> flt \<times> KeyFrameInterpolator" where
  "read_keyframes files ps file_name =
     (case files file_name of
        None \<Rightarrow>
          (False, fst ps,
           (snd ps)\<lparr>log_msgs := log_msgs (snd ps)
                @ [''unable to open '' @ [CHR 0x27] @ file_name @ [CHR 0x27]]\<rparr>)
      | Some input \<Rightarrow>
          (let ps1 = (fst ps, delete_path (snd ps));
               ps2 = foldl add_keyframe_auto ps1
                       (map (frame_read input) [0 ..< nat (num_key_frames input)])
           in (length (keyframes (snd ps2)) > 0, ps2)))"

section \<open>Tangents\<close>

text \<open>
  What the interpolator uses from headers that are not among the sources:
  \<open>interpolation_period()\<close> (the period in milliseconds, from the frame rate),
  \<open>epsilon<float>()\<close>, \<open>vec3::normalize\<close>, \<open>quat::squad_tangent\<close> and \<open>quat::squad\<close>.
\<close>

record ext =
  interpolation_period :: "int \<Rightarrow> flt"
  epsilon :: flt
  vec_normalize :: "vec3 \<Rightarrow> vec3"
  squad_tangent :: "quat \<Rightarrow> quat \<Rightarrow> quat \<Rightarrow> quat"
  squad :: "quat \<Rightarrow> quat \<Rightarrow> quat \<Rightarrow> quat \<Rightarrow> flt \<Rightarrow> quat"

text \<open>\<open>KeyFrame::flipOrientationIfNeeded(prev)\<close> and \<open>KeyFrame::computeTangent(prev, next)\<close>.\<close>

definition flipOrientationIfNeeded :: "KeyFrame \<Rightarrow> quat \<Rightarrow> KeyFrame" where
  "flipOrientationIfNeeded kf prev =
     (if quat_dot prev (kf_orientation kf) < Fin 0
      then kf\<lparr>kf_orientation := quat_negate (kf_orientation kf)\<rparr>
      else kf)"

definition computeTangent :: "ext \<Rightarrow> KeyFrame \<Rightarrow> KeyFrame \<Rightarrow> KeyFrame \<Rightarrow> KeyFrame" where
  "computeTangent E kf prev next =
     (let sd_prev = distance2 (kf_position prev) (kf_position kf);
          sd_next = distance2 (kf_position next) (kf_position kf);
          tgP =
            (if sd_prev < sd_next then
               (let new_next = kf_position kf
                      + scale (flt_sqrt sd_prev)
                          (vec_normalize E (kf_position next - kf_position kf))
                in scale (Fin 0.5) (new_next - kf_position prev))
             else
               (let new_prev = kf_position kf
                      + scale (flt_sqrt sd_next)
                          (vec_normalize E (kf_position prev - kf_position kf))
                in scale (Fin 0.5) (kf_position next - new_prev)))
      in kf\<lparr>kf_tgP := tgP,
            kf_tgQ := squad_tangent E (kf_orientation prev) (kf_orientation kf)
                        (kf_orientation next)\<rparr>)"

text \<open>
  \<open>updateModifiedFrameValues\<close>, first loop: \<open>prevQ\<close> starts as the orientation of the front
  keyframe and is the (possibly flipped) orientation of the keyframe just visited.
\<close>

fun flip_pass :: "quat \<Rightarrow> KeyFrame list \<Rightarrow> KeyFrame list" where
  "flip_pass prevQ [] = []"
| "flip_pass prevQ (kf # kfs) =
     (let kf' = flipOrientationIfNeeded kf prevQ
      in kf' # flip_pass (kf_orientation kf') kfs)"

text \<open>
  Second loop: \<open>kf\<close> is the keyframe at \<open>i\<close> (the source's \<open>index - 1\<close>), \<open>prev\<close> the one
  before it (the front keyframe itself at the start), \<open>next\<close> the one after it when there
  is one.
\<close>

function tangent_pass :: "ext \<Rightarrow> KeyFrame list \<Rightarrow> nat \<Rightarrow> KeyFrame list" where
  "tangent_pass E kfs i =
     (if i < length kfs then
        (let prev = (if i = 0 then kfs ! 0 else kfs ! (i - 1));
             kf = kfs ! i;
             kf' = (if i + 1 < length kfs then computeTangent E kf prev (kfs ! (i + 1))
                    else computeTangent E kf prev kf)
         in tangent_pass E (kfs[i := kf']) (i + 1))
      else kfs)"
  by pat_completeness auto
termination
  by (relation "measure (\<lambda>(E, kfs, i). length kfs - i)") auto

text \<open>\<open>keyFrames.front()\<close> on an empty vector is undefined behaviour: \<open>None\<close>.\<close>

definition updateModifiedFrameValues :: "ext \<Rightarrow> KeyFrame list \<Rightarrow> KeyFrame list option" where
  "updateModifiedFrameValues E keyFrames =
     (if keyFrames = [] then None
      else Some (tangent_pass E (flip_pass (kf_orientation (hd keyFrames)) keyFrames) 0))"

section \<open>Bracket search and spline evaluation\<close>

text \<open>
  \<open>getRelatedKeyFramesForTime\<close>. The four iterators are indices into the vector. The
  source compares the pointer under an iterator with \<open>keyFrames.back()\<close>; every keyframe
  of a vector is an allocation of its own, so that is the comparison of the index with
  the last index. The first loop starts at \<open>begin()\<close>, the second where the first ended.
  Reading through \<open>begin()\<close> of an empty vector is undefined behaviour: \<open>None\<close>.
\<close>

function related_back :: "flt \<Rightarrow> KeyFrame list \<Rightarrow> nat \<Rightarrow> nat" where
  "related_back time kfs i =
     (if kf_time (kfs ! i) > time then (if i = 0 then i else related_back time kfs (i - 1))
      else i)"
  by pat_completeness auto
termination
  by (relation "measure (\<lambda>(time, kfs, i). i)") auto

function related_forward :: "flt \<Rightarrow> KeyFrame list \<Rightarrow> nat \<Rightarrow> nat option" where
  "related_forward time kfs i =
     (if length kfs \<le> i then None
      else if kf_time (kfs ! i) < time then
        (if i = length kfs - 1 then Some i else related_forward time kfs (i + 1))
      else Some i)"
  by pat_completeness auto
termination
  by (relation "measure (\<lambda>(time, kfs, i). length kfs - i)") auto

definition getRelatedKeyFramesForTime ::
  "flt \<Rightarrow> KeyFrame list \<Rightarrow> (nat \<times> nat \<times> nat \<times> nat) option" where
  "getRelatedKeyFramesForTime time keyFrames =
     (if keyFrames = [] then None
      else
        (case related_forward time keyFrames (related_back time keyFrames 0) of
           None \<Rightarrow> None
         | Some r2 \<Rightarrow>
             (let r1 = (if r2 \<noteq> 0 \<and> time < kf_time (keyFrames ! r2) then r2 - 1 else r2);
                  r0 = (if r1 \<noteq> 0 then r1 - 1 else r1);
                  r3 = (if r2 \<noteq> length keyFrames - 1 then r2 + 1 else r2)
              in Some (r0, r1, r2, r3))))"

definition computeSpline :: "KeyFrame \<Rightarrow> KeyFrame \<Rightarrow> vec3 \<times> vec3" where
  "computeSpline k1 k2 =
     (let delta = kf_position k2 - kf_position k1
      in (scale (Fin 3) delta - scale (Fin 2) (kf_tgP k1) - kf_tgP k2,
          scale (Fin (- 2)) delta + kf_tgP k1 + kf_tgP k2))"

text \<open>
  The sampling step of \<open>do_interpolate\<close> and of \<open>smooth\<close> (the same expression in both).
\<close>

definition sample_interval :: "ext \<Rightarrow> KeyFrameInterpolator \<Rightarrow> flt" where
  "sample_interval E st =
     interpolation_speed st * interpolation_period E (fps st) / Fin 1000"

text \<open>One round of the loop of \<open>do_interpolate\<close>: the frame evaluated at \<open>time\<close>.\<close>

definition interpolate_at :: "ext \<Rightarrow> flt \<Rightarrow> KeyFrame list \<Rightarrow> Frame option" where
  "interpolate_at E time keyFrames =
     (case getRelatedKeyFramesForTime time keyFrames of
        None \<Rightarrow> None
      | Some (r0, r1, r2, r3) \<Rightarrow>
          (let k1 = keyFrames ! r1;
               k2 = keyFrames ! r2;
               v1 = fst (computeSpline k1 k2);
               v2 = snd (computeSpline k1 k2);
               dt = kf_time k2 - kf_time k1;
               alpha = (if \<bar>dt\<bar> < epsilon E then Fin 0 else (time - kf_time k1) / dt);
               pos = kf_position k1
                       + scale alpha (kf_tgP k1 + scale alpha (v1 + scale alpha v2));
               qq = squad E (kf_orientation k1) (kf_tgQ k1) (kf_tgQ k2) (kf_orientation k2)
                      alpha
           in Some \<lparr>position = pos, orientation = qq\<rparr>))"

text \<open>
  The loop \<open>for (time = firstTime(); time < lastTime() + interval; time += interval)\<close>.
  Nothing bounds the number of rounds (the step can be zero or negative), so the loop
  carries fuel: \<open>None\<close> when the fuel runs out, or when the body reads out of bounds.
\<close>

fun do_interpolate_loop ::
  "nat \<Rightarrow> ext \<Rightarrow> flt \<Rightarrow> flt \<Rightarrow> KeyFrame list \<Rightarrow> flt \<Rightarrow> Frame list \<Rightarrow> Frame list option" where
  "do_interpolate_loop 0 E interval lastT keyFrames time frames = None"
| "do_interpolate_loop (Suc n) E interval lastT keyFrames time frames =
     (if time < lastT + interval then
        (case interpolate_at E time keyFrames of
           None \<Rightarrow> None
         | Some f \<Rightarrow>
             do_interpolate_loop n E interval lastT keyFrames (time + interval)
               (frames @ [f]))
      else Some frames)"

text \<open>
  \<open>do_interpolate(frames, keyFrames)\<close> returns the new frames and the keyframes as
  \<open>updateModifiedFrameValues\<close> left them. \<open>firstTime()\<close> and \<open>lastTime()\<close> are those of the
  interpolator's own track, whatever \<open>keyFrames\<close> is.
\<close>

definition do_interpolate ::
  "nat \<Rightarrow> ext \<Rightarrow> KeyFrameInterpolator \<Rightarrow> KeyFrame list \<Rightarrow> (Frame list \<times> KeyFrame list) option" where
  "do_interpolate n E st keyFrames =
     (if keyFrames = [] then Some ([], keyFrames)
      else
        (case updateModifiedFrameValues E keyFrames of
           None \<Rightarrow> None
         | Some kfs \<Rightarrow>
             (case do_interpolate_loop n E (sample_interval E st) (lastTime st) kfs
                     (firstTime st) [] of
                None \<Rightarrow> None
              | Some frames \<Rightarrow> Some (frames, kfs))))"


section \<open>Smoothing\<close>

text \<open>
  The first loop of \<open>smooth\<close>: \<open>akf\<close> is \<open>as_key_frames\<close> so far, \<open>ref\<close> the local
  \<open>period_reference_distance\<close>.
\<close>

fun smooth_track :: "flt \<Rightarrow> flt \<Rightarrow> KeyFrame list \<Rightarrow> Frame list \<Rightarrow> KeyFrame list" where
  "smooth_track interval ref akf [] = akf"
| "smooth_track interval ref akf (f # fs) =
     (if akf = [] then smooth_track interval ref (akf @ [new_KeyFrame f (Fin 0)]) fs
      else if length akf = 1 then
        smooth_track interval (distance (kf_position (akf ! 0)) (position f))
          (akf @ [new_KeyFrame f interval]) fs
      else
        smooth_track interval ref
          (akf @ [new_KeyFrame f
                    (kf_time (last akf)
                       + interval * distance (kf_position (last akf)) (position f) / ref)])
          fs)"

definition smooth_ratio :: "ext \<Rightarrow> KeyFrameInterpolator \<Rightarrow> Frame list \<Rightarrow> flt" where
  "smooth_ratio E st frames =
     (let as_key_frames = smooth_track (sample_interval E st) (Fin 0) [] frames
      in duration st / (kf_time (last as_key_frames) - kf_time (hd as_key_frames)))"


definition smooth ::
  "nat \<Rightarrow> ext \<Rightarrow> KeyFrameInterpolator \<Rightarrow> Frame list \<Rightarrow> (KeyFrameInterpolator \<times> Frame list) option" where
  "smooth n E st frames =
     (if length frames < 2 then Some (st, frames)
      else
        (let as_key_frames = smooth_track (sample_interval E st) (Fin 0) [] frames;
             ratio = smooth_ratio E st frames
         in if is_nan ratio
            then Some (st\<lparr>log_msgs := log_msgs st @ [''duration is 0'']\<rparr>, frames)
            else
              (case do_interpolate n E st
                      (map (\<lambda>f. f\<lparr>kf_time := kf_time f * ratio\<rparr>) as_key_frames) of
                 None \<Rightarrow> None
               | Some (frames', kfs) \<Rightarrow> Some (st, frames'))))"

text \<open>
  \<open>interpolate()\<close>: \<open>do_interpolate\<close> on the interpolator's own path and track (the keyframes
  are passed by reference, so the track keeps what \<open>updateModifiedFrameValues\<close> wrote),
  then one round of \<open>smooth\<close>.
\<close>

definition interpolate :: "nat \<Rightarrow> ext \<Rightarrow> KeyFrameInterpolator \<Rightarrow> KeyFrameInterpolator option" where
  "interpolate n E st =
     (if pathIsValid st then Some st
      else
        (case do_interpolate n E st (keyframes st) of
           None \<Rightarrow> None
         | Some (frames, kfs) \<Rightarrow>
             (case smooth n E (st\<lparr>interpolated_path := frames, keyframes := kfs\<rparr>) frames of
                None \<Rightarrow> None
              | Some (st1, frames1) \<Rightarrow>
                  Some (st1\<lparr>interpolated_path := frames1, pathIsValid := True\<rparr>))))"

section \<open>Predicates and reference definitions used in the statements\<close>

text \<open>
  Modelled from the spec: \<open>interpolation_period()\<close> is declared in the class header, which
  is not among the sources. The specification gives the frame rate in samples per second
  and the playback sleep as the sample interval in milliseconds, so the period of a frame
  rate \<open>f\<close> is \<open>1000 / f\<close> milliseconds.
\<close>

definition spec_interpolation_period :: "int \<Rightarrow> flt" where
  "spec_interpolation_period f = Fin 1000 / Fin (real_of_int f)"

text \<open>
  A sequence of calls of \<open>add_keyframe(frame)\<close> on one interpolator, with no call on any
  other interpolator in between.
\<close>

definition auto_appends ::
  "flt \<times> KeyFrameInterpolator \<Rightarrow> Frame list \<Rightarrow> flt \<times> KeyFrameInterpolator" where
  "auto_appends ps frames = foldl add_keyframe_auto ps frames"

text \<open>
  The auto-time rule in the words of the specification: 0 for the first keyframe, 1 for
  the second, then the last keyframe's time plus 1.0 times the chord from the last
  keyframe to the new position, divided by the chord between keyframes 0 and 1.
\<close>

definition spec_auto_time :: "KeyFrame list \<Rightarrow> Frame \<Rightarrow> flt" where
  "spec_auto_time kfs frame =
     (case kfs of
        [] \<Rightarrow> Fin 0
      | [k0] \<Rightarrow> Fin 1
      | k0 # k1 # ks \<Rightarrow>
          kf_time (last kfs)
            + Fin 1 * distance (kf_position (last kfs)) (position frame)
                / distance (kf_position k0) (kf_position k1))"

text \<open>
  What holds of the \<open>static\<close> and a track built by such a sequence: the first two times
  are 0 and 1, and the \<open>static\<close> holds the chord between the first two keyframes.
\<close>

definition auto_track_inv :: "flt \<times> KeyFrameInterpolator \<Rightarrow> bool" where
  "auto_track_inv ps =
     (case keyframes (snd ps) of
        [] \<Rightarrow> True
      | [k0] \<Rightarrow> kf_time k0 = Fin 0
      | k0 # k1 # ks \<Rightarrow>
          kf_time k0 = Fin 0 \<and> kf_time k1 = Fin 1
          \<and> fst ps = distance (kf_position k0) (kf_position k1))"

definition strictly_increasing_times :: "KeyFrame list \<Rightarrow> bool" where
  "strictly_increasing_times kfs = sorted_wrt (\<lambda>a b. kf_time a < kf_time b) kfs"

text \<open>A keyframe whose position, position tangent and time are finite numbers.\<close>

definition fin_KeyFrame :: "KeyFrame \<Rightarrow> bool" where
  "fin_KeyFrame k = (fin_vec3 (kf_position k) \<and> fin_vec3 (kf_tgP k) \<and> is_fin (kf_time k))"

text \<open>A keyframe whose position and time are finite numbers.\<close>

definition fin_pose :: "KeyFrame \<Rightarrow> bool" where
  "fin_pose k = (fin_vec3 (kf_position k) \<and> is_fin (kf_time k))"

text \<open>Every two consecutive orientations have a dot product that is not negative.\<close>

definition continuous_orientations :: "KeyFrame list \<Rightarrow> bool" where
  "continuous_orientations kfs =
     successively (\<lambda>a b. Fin 0 \<le> quat_dot (kf_orientation a) (kf_orientation b)) kfs"



section \<open>Concrete inputs\<close>

text \<open>
  A pose at a given position with the identity orientation, a keyframe with a given
  orientation, a state around a track, and stand-ins for the functions that are not
  among the sources (used where an example needs some value for them).
\<close>

definition frame_at :: "real \<Rightarrow> real \<Rightarrow> real \<Rightarrow> Frame" where
  "frame_at a b c =
     \<lparr>position = Vec3 (Fin a) (Fin b) (Fin c),
      orientation = Quat (Fin 0) (Fin 0) (Fin 0) (Fin 1)\<rparr>"

definition keyframe_facing :: "real \<Rightarrow> flt \<Rightarrow> KeyFrame" where
  "keyframe_facing w t =
     new_KeyFrame \<lparr>position = Vec3 (Fin 0) (Fin 0) (Fin 0),
                   orientation = Quat (Fin 0) (Fin 0) (Fin 0) (Fin w)\<rparr> t"

definition track_state :: "KeyFrame list \<Rightarrow> KeyFrameInterpolator" where
  "track_state kfs =
     \<lparr>fps = 30, interpolation_speed = Fin 1, interpolation_started = True,
      last_stopped_index = 5, pathIsValid = True, keyframes = kfs,
      interpolated_path = [], timer_stopped = False, log_msgs = []\<rparr>"

text \<open>
  Two interpolators of one process. A receives two keyframes by \<open>add_keyframe(frame)\<close>,
  starting from the initial value 0 of the \<open>static\<close>; B then receives two of its own,
  starting from the value A's calls left in the \<open>static\<close>.
\<close>

definition track_A :: "flt \<times> KeyFrameInterpolator" where
  "track_A = auto_appends (Fin 0, track_state []) [frame_at 0 0 0, frame_at 2 0 0]"

definition track_B :: "flt \<times> KeyFrameInterpolator" where
  "track_B = auto_appends (fst track_A, track_state []) [frame_at 0 0 0, frame_at 10 0 0]"

text \<open>Three keyframes on a line, at times 0, 1 and 2.\<close>

definition line_track :: "KeyFrame list" where
  "line_track =
     [new_KeyFrame (frame_at 0 0 0) (Fin 0), new_KeyFrame (frame_at 1 0 0) (Fin 1),
      new_KeyFrame (frame_at 2 0 0) (Fin 2)]"

text \<open>
  The same three keyframes with the position tangents that \<open>updateModifiedFrameValues\<close>
  writes, and a state that samples them once per second. (Every vector normalised on
  this track has length 1 or is scaled by 0 afterwards, so the identity stands in for
  \<open>normalize\<close> below without changing a tangent.)
\<close>

definition line_track_ready :: "KeyFrame list" where
  "line_track_ready =
     [(new_KeyFrame (frame_at 0 0 0) (Fin 0))\<lparr>kf_tgP := Vec3 (Fin 0) (Fin 0) (Fin 0)\<rparr>,
      (new_KeyFrame (frame_at 1 0 0) (Fin 1))\<lparr>kf_tgP := Vec3 (Fin 1) (Fin 0) (Fin 0)\<rparr>,
      (new_KeyFrame (frame_at 2 0 0) (Fin 2))\<lparr>kf_tgP := Vec3 (Fin 0) (Fin 0) (Fin 0)\<rparr>]"

definition slow_state :: KeyFrameInterpolator where
  "slow_state = (track_state line_track)\<lparr>fps := 1, pathIsValid := False\<rparr>"

definition ext0 :: ext where
  "ext0 =
     \<lparr>interpolation_period = spec_interpolation_period,
      epsilon = Fin (1 / 1000000),
      vec_normalize = (\<lambda>v. v),
      squad_tangent = (\<lambda>a b c. b),
      squad = (\<lambda>a ta tb b t. a)\<rparr>"

definition no_file :: "string \<Rightarrow> kf_stream option" where
  "no_file name = None"

definition one_frame_file :: "string \<Rightarrow> kf_stream option" where
  "one_frame_file name = Some \<lparr>num_key_frames = 1, frame_read = (\<lambda>j. frame_at 0 0 0)\<rparr>"

text \<open>
  A track with keyframes at times 0 and 1, and the playback speed set to 0: the sampling
  step is 0.
\<close>

definition stalled_state :: KeyFrameInterpolator where
  "stalled_state =
     (track_state [new_KeyFrame (frame_at 0 0 0) (Fin 0), new_KeyFrame (frame_at 1 0 0) (Fin 1)])
       \<lparr>interpolation_speed := Fin 0\<rparr>"







text \<open>
  The recursion equations of the three loops are applied by hand in the proofs below.
\<close>

declare tangent_pass.simps [simp del]
declare related_back.simps [simp del]
declare related_forward.simps [simp del]

section \<open>Arithmetic of the special values\<close>

lemma flt_one_times [simp]: "Fin 1 * (a::flt) = a"
  by (cases a) auto

lemma is_fin_iff: "is_fin a = (\<exists>r. a = Fin r)"
  by (cases a) auto

lemma fin_vec3_iff: "fin_vec3 v = (\<exists>a b c. v = Vec3 (Fin a) (Fin b) (Fin c))"
  by (cases v) (auto simp: is_fin_iff)

lemma fin_quat_iff: "fin_quat q = (\<exists>a b c d. q = Quat (Fin a) (Fin b) (Fin c) (Fin d))"
  by (cases q) (auto simp: is_fin_iff)

text \<open>The order on values that are not NaN is a strict linear order.\<close>

lemma flt_less_trans: "(a::flt) < b \<Longrightarrow> b < c \<Longrightarrow> a < c"
  by (cases a; cases b; cases c) auto

lemma flt_less_imp_le: "(a::flt) < b \<Longrightarrow> a \<le> b"
  by (cases a; cases b) auto

lemma flt_less_irrefl: "\<not> (a::flt) < a"
  by (cases a) auto

lemma flt_less_asym: "(a::flt) < b \<Longrightarrow> \<not> b < a"
  by (cases a; cases b) auto

lemma flt_less_not_nan: "(a::flt) < b \<Longrightarrow> \<not> is_nan a \<and> \<not> is_nan b"
  by (cases a; cases b) (auto simp: is_nan_def)

lemma flt_le_not_nan: "(a::flt) \<le> b \<Longrightarrow> \<not> is_nan a \<and> \<not> is_nan b"
  by (cases a; cases b) (auto simp: is_nan_def)

lemma flt_linear: "\<not> is_nan a \<Longrightarrow> \<not> is_nan b \<Longrightarrow> \<not> a < b \<Longrightarrow> b \<le> a"
  by (cases a; cases b) (auto simp: is_nan_def)

section \<open>The sampling step\<close>
















text \<open>
  Whatever \<open>interpolation_period()\<close> returns for 25 frames per second, the step cannot be
  \<open>(1.0 / 25) / s\<close> at both speeds 1 and 2: doubling the speed doubles the step.
\<close>

lemma sample_interval_doubles_with_speed:
  assumes "sample_interval E ((track_state [])\<lparr>fps := 25, interpolation_speed := Fin 1\<rparr>)
             = Fin 1 / Fin 25 / Fin 1"
  shows "sample_interval E ((track_state [])\<lparr>fps := 25, interpolation_speed := Fin 2\<rparr>)
           \<noteq> Fin 1 / Fin 25 / Fin 2"
proof -
  obtain p where p: "interpolation_period E 25 = Fin p"
    using assms by (cases "interpolation_period E 25")
      (simp_all add: sample_interval_def track_state_def)
  then show ?thesis
    using assms by (simp add: sample_interval_def track_state_def)
qed

text \<open>The same step separates the first two keyframes of the track that \<open>smooth\<close> builds.\<close>

lemma smooth_track_two:
  "smooth_track interval r [] [f0, f1] = [new_KeyFrame f0 (Fin 0), new_KeyFrame f1 interval]"
  by simp

section \<open>Appending with an explicit time\<close>

text \<open>
  C3, as the code has it. When the track is not empty and the new time is not greater
  than the last keyframe's time, \<open>add_keyframe(frame, time)\<close> logs the violation and leaves
  the keyframes as they are; it still invalidates the cached path, resets the resume
  index to 0 and stops the interpolation, as it does after a successful append.
\<close>

theorem add_keyframe_rejected:
  assumes "keyframes st \<noteq> []" and "time \<le> kf_time (last (keyframes st))"
  shows "add_keyframe st frame time =
           st\<lparr>log_msgs := log_msgs st @ [''time is not monotone''],
              pathIsValid := False, last_stopped_index := 0,
              timer_stopped := True, interpolation_started := False\<rparr>
         \<and> keyframes (add_keyframe st frame time) = keyframes st"
  using assms by (simp add: add_keyframe_def stop_interpolation_def)

theorem add_keyframe_rejected_witness:
  "keyframes (track_state [new_KeyFrame (frame_at 0 0 0) (Fin 1)]) \<noteq> []
   \<and> Fin 0 \<le> kf_time (last (keyframes (track_state [new_KeyFrame (frame_at 0 0 0) (Fin 1)])))
   \<and> keyframes (add_keyframe (track_state [new_KeyFrame (frame_at 0 0 0) (Fin 1)])
        (frame_at 1 0 0) (Fin 0))
       = [new_KeyFrame (frame_at 0 0 0) (Fin 1)]"
  using add_keyframe_rejected
    [of "track_state [new_KeyFrame (frame_at 0 0 0) (Fin 1)]" "Fin 0" "frame_at 1 0 0"]
  by (simp add: track_state_def new_KeyFrame_def)

text \<open>
  C3 as stated fails: a track with one keyframe at time 1, a valid cache, resume index 5
  and a running interpolation; appending at time 0 is rejected, and afterwards the cache
  is invalid, the resume index is 0 and the interpolation is stopped.
\<close>

theorem add_keyframe_rejected_changes_state:
  "keyframes (track_state [new_KeyFrame (frame_at 0 0 0) (Fin 1)]) \<noteq> []
   \<and> Fin 0 \<le> kf_time (last (keyframes (track_state [new_KeyFrame (frame_at 0 0 0) (Fin 1)])))
   \<and> pathIsValid (track_state [new_KeyFrame (frame_at 0 0 0) (Fin 1)])
   \<and> \<not> pathIsValid (add_keyframe (track_state [new_KeyFrame (frame_at 0 0 0) (Fin 1)])
         (frame_at 1 0 0) (Fin 0))
   \<and> last_stopped_index (track_state [new_KeyFrame (frame_at 0 0 0) (Fin 1)]) = 5
   \<and> last_stopped_index (add_keyframe (track_state [new_KeyFrame (frame_at 0 0 0) (Fin 1)])
         (frame_at 1 0 0) (Fin 0)) = 0
   \<and> interpolation_started (track_state [new_KeyFrame (frame_at 0 0 0) (Fin 1)])
   \<and> \<not> interpolation_started (add_keyframe (track_state [new_KeyFrame (frame_at 0 0 0) (Fin 1)])
         (frame_at 1 0 0) (Fin 0))"
  by (simp add: track_state_def new_KeyFrame_def add_keyframe_def stop_interpolation_def)

section \<open>Removing the last keyframe\<close>

lemma delete_last_keyframe_nonempty:
  "keyframes st \<noteq> [] \<Longrightarrow>
     \<exists>st'. delete_last_keyframe st = Some st' \<and> keyframes st' = butlast (keyframes st)
            \<and> \<not> pathIsValid st' \<and> last_stopped_index st' = 0 \<and> \<not> interpolation_started st'"
  by (simp add: delete_last_keyframe_def stop_interpolation_def)

text \<open>
  C10. \<open>delete_last_keyframe\<close> pops without a guard: the out-of-bounds pop (the value
  \<open>None\<close> of the model) happens exactly when the track is empty, so a caller avoids it
  exactly by establishing that the track is not empty. After \<open>add_keyframe\<close> the track is
  never empty and the call is safe; after \<open>delete_path\<close> it is not.
\<close>

theorem delete_last_keyframe_unsafe_iff_empty:
  "(delete_last_keyframe st = None) = (keyframes st = [])
   \<and> delete_last_keyframe (add_keyframe st frame time) \<noteq> None
   \<and> delete_last_keyframe (delete_path st) = None"
  by (simp add: delete_last_keyframe_def add_keyframe_def delete_path_def
      stop_interpolation_def Let_def)

section \<open>Appending with an automatic time\<close>

lemma auto_track_inv_step:
  assumes "auto_track_inv ps"
  shows "auto_track_inv (add_keyframe_auto ps frame)"
proof (cases "keyframes (snd ps)")
  case Nil
  then show ?thesis
    by (simp add: auto_track_inv_def add_keyframe_auto_def auto_time_def add_keyframe_def
        stop_interpolation_def new_KeyFrame_def)
next
  case (Cons k0 rest)
  note c0 = Cons
  show ?thesis
  proof (cases rest)
    case Nil
    with c0 assms show ?thesis
      by (simp add: auto_track_inv_def add_keyframe_auto_def auto_time_def add_keyframe_def
          stop_interpolation_def new_KeyFrame_def)
  next
    case (Cons k1 ks)
    with c0 assms show ?thesis
      by (simp add: auto_track_inv_def add_keyframe_auto_def auto_time_def add_keyframe_def
          stop_interpolation_def)
  qed
qed

lemma auto_track_inv_appends:
  "auto_track_inv ps \<Longrightarrow> auto_track_inv (auto_appends ps frames)"
  unfolding auto_appends_def
  by (induction frames arbitrary: ps) (simp_all add: auto_track_inv_step)

lemma auto_time_spec:
  "auto_track_inv ps \<Longrightarrow>
     fst (auto_time (fst ps) (snd ps) frame) = spec_auto_time (keyframes (snd ps)) frame"
  by (cases "keyframes (snd ps)"; cases "tl (keyframes (snd ps))")
     (auto simp: auto_track_inv_def auto_time_def spec_auto_time_def split: list.splits)

text \<open>
  As long as no other interpolator is appended to in between, the time computed for the
  next keyframe of a track that started empty is the one of the specification's rule.
\<close>

lemma auto_time_alone:
  assumes "keyframes st0 = []"
  shows "fst (auto_time (fst (auto_appends (r0, st0) frames))
                (snd (auto_appends (r0, st0) frames)) frame)
           = spec_auto_time (keyframes (snd (auto_appends (r0, st0) frames))) frame"
proof -
  have "auto_track_inv (r0, st0)"
    using assms by (simp add: auto_track_inv_def)
  then have "auto_track_inv (auto_appends (r0, st0) frames)"
    by (rule auto_track_inv_appends)
  then show ?thesis
    by (rule auto_time_spec)
qed

lemma track_A_alone:
  "map kf_time (keyframes (snd track_A)) = [Fin 0, Fin 1]"
  "fst track_A = Fin 2"
  "fst (auto_time (fst track_A) (snd track_A) (frame_at 2 3 0)) = Fin (5 / 2)"
  by (simp_all add: track_A_def track_state_def auto_appends_def add_keyframe_auto_def
      auto_time_def add_keyframe_def stop_interpolation_def new_KeyFrame_def frame_at_def
      distance_def minus_flt_def)

text \<open>
  C9, evaluated where the code departs from it. Interpolator A receives its first two
  keyframes, at \<open>(0,0,0)\<close> and \<open>(2,0,0)\<close>: times 0 and 1, and the \<open>static\<close> records the
  chord 2. Interpolator B of the same process then receives its first two keyframes, at
  \<open>(0,0,0)\<close> and \<open>(10,0,0)\<close>, which overwrites the \<open>static\<close> with 10. The third keyframe of
  A, at \<open>(2,3,0)\<close>, is 3 away from A's last keyframe: the code assigns it the time
  \<open>1 + 3 / 10 = 13/10\<close> and stores it with that time, while the rule (the chord between
  A's keyframes 0 and 1, recorded once) gives \<open>1 + 3 / 2 = 5/2\<close>.
\<close>

theorem auto_time_shared_static:
  "map kf_time (keyframes (snd track_A)) = [Fin 0, Fin 1]
   \<and> fst track_A = Fin 2
   \<and> fst track_B = Fin 10
   \<and> fst (auto_time (fst track_B) (snd track_A) (frame_at 2 3 0)) = Fin (13 / 10)
   \<and> map kf_time (keyframes (snd (add_keyframe_auto (fst track_B, snd track_A)
                                       (frame_at 2 3 0))))
       = [Fin 0, Fin 1, Fin (13 / 10)]
   \<and> spec_auto_time (keyframes (snd track_A)) (frame_at 2 3 0) = Fin (5 / 2)"
  by (simp add: track_A_def track_B_def track_state_def auto_appends_def add_keyframe_auto_def
      auto_time_def add_keyframe_def stop_interpolation_def new_KeyFrame_def frame_at_def
      distance_def spec_auto_time_def minus_flt_def)

section \<open>Loading a track from a file\<close>

text \<open>
  C5, as the code has it. When the file cannot be opened, \<open>read_keyframes\<close> returns
  failure and logs; it returns before \<open>delete_path\<close>, so the track and the rest of the state
  are as they were. And whenever it returns success the resulting track is not empty.
\<close>

theorem read_keyframes_result:
  "(files file_name = None \<longrightarrow>
      read_keyframes files (r, st) file_name
        = (False, r,
           st\<lparr>log_msgs := log_msgs st
                @ [''unable to open '' @ [CHR 0x27] @ file_name @ [CHR 0x27]]\<rparr>))
   \<and> (fst (read_keyframes files (r, st) file_name) \<longrightarrow>
        keyframes (snd (snd (read_keyframes files (r, st) file_name))) \<noteq> [])"
  by (auto simp: read_keyframes_def Let_def split: option.splits)

theorem read_keyframes_result_witness:
  "no_file ''path.kf'' = None
   \<and> keyframes (snd (snd (read_keyframes no_file
        (Fin 0, track_state [new_KeyFrame (frame_at 0 0 0) (Fin 0)]) ''path.kf'')))
       = [new_KeyFrame (frame_at 0 0 0) (Fin 0)]
   \<and> fst (read_keyframes one_frame_file (Fin 0, track_state []) ''path.kf'')
   \<and> keyframes (snd (snd (read_keyframes one_frame_file (Fin 0, track_state []) ''path.kf'')))
       \<noteq> []"
proof -
  have a: "no_file ''path.kf'' = None"
    by (simp add: no_file_def)
  have b: "fst (read_keyframes one_frame_file (Fin 0, track_state []) ''path.kf'')"
    by (simp add: read_keyframes_def one_frame_file_def delete_path_def stop_interpolation_def
        track_state_def add_keyframe_auto_def auto_time_def add_keyframe_def)
  from read_keyframes_result
         [of no_file "''path.kf''" "Fin 0" "track_state [new_KeyFrame (frame_at 0 0 0) (Fin 0)]"]
       read_keyframes_result [of one_frame_file "''path.kf''" "Fin 0" "track_state []"] a b
  show ?thesis by (simp add: track_state_def)
qed

text \<open>
  C5 as stated fails: a track with one keyframe and a file that cannot be opened; the
  load returns failure and the track still holds its keyframe.
\<close>

theorem read_keyframes_unopened_keeps_track:
  "no_file ''path.kf'' = None
   \<and> \<not> fst (read_keyframes no_file
          (Fin 0, track_state [new_KeyFrame (frame_at 0 0 0) (Fin 0)]) ''path.kf'')
   \<and> keyframes (snd (snd (read_keyframes no_file
         (Fin 0, track_state [new_KeyFrame (frame_at 0 0 0) (Fin 0)]) ''path.kf'')))
       = [new_KeyFrame (frame_at 0 0 0) (Fin 0)]
   \<and> keyframes (snd (snd (read_keyframes no_file
         (Fin 0, track_state [new_KeyFrame (frame_at 0 0 0) (Fin 0)]) ''path.kf''))) \<noteq> []"
  by (simp add: read_keyframes_def no_file_def track_state_def)

section \<open>Orientation continuity\<close>

lemma fin_quat_negate: "fin_quat q \<Longrightarrow> fin_quat (quat_negate q)"
  by (auto simp: fin_quat_iff)

lemma quat_dot_negate:
  "fin_quat a \<Longrightarrow> fin_quat b \<Longrightarrow> quat_dot a (quat_negate b) = - quat_dot a b"
  by (auto simp: fin_quat_iff)

lemma quat_dot_fin: "fin_quat a \<Longrightarrow> fin_quat b \<Longrightarrow> is_fin (quat_dot a b)"
  by (auto simp: fin_quat_iff)

lemma flt_neg_nonneg: "is_fin a \<Longrightarrow> a < Fin 0 \<Longrightarrow> Fin 0 \<le> - a"
  by (auto simp: is_fin_iff)

lemma flt_not_less_nonneg: "is_fin a \<Longrightarrow> \<not> a < Fin 0 \<Longrightarrow> Fin 0 \<le> a"
  by (auto simp: is_fin_iff)

lemma flip_nonneg:
  assumes "fin_quat prev" and "fin_quat (kf_orientation kf)"
  shows "Fin 0 \<le> quat_dot prev (kf_orientation (flipOrientationIfNeeded kf prev))"
    and "fin_quat (kf_orientation (flipOrientationIfNeeded kf prev))"
  using assms
  by (auto simp: flipOrientationIfNeeded_def quat_dot_negate quat_dot_fin flt_neg_nonneg
      flt_not_less_nonneg fin_quat_negate)

lemma flip_pass_continuous:
  assumes "fin_quat prevQ" and "list_all (\<lambda>k. fin_quat (kf_orientation k)) kfs"
  shows "continuous_orientations (flip_pass prevQ kfs)
         \<and> (kfs \<noteq> [] \<longrightarrow>
              Fin 0 \<le> quat_dot prevQ (kf_orientation (hd (flip_pass prevQ kfs))))"
  using assms
proof (induction kfs arbitrary: prevQ)
  case Nil
  then show ?case by (simp add: continuous_orientations_def)
next
  case (Cons kf kfs)
  let ?kf' = "flipOrientationIfNeeded kf prevQ"
  have f: "fin_quat (kf_orientation ?kf')"
    and d: "Fin 0 \<le> quat_dot prevQ (kf_orientation ?kf')"
    using Cons.prems by (simp_all add: flip_nonneg)
  have ih: "continuous_orientations (flip_pass (kf_orientation ?kf') kfs)
         \<and> (kfs \<noteq> [] \<longrightarrow>
              Fin 0 \<le> quat_dot (kf_orientation ?kf')
                        (kf_orientation (hd (flip_pass (kf_orientation ?kf') kfs))))"
    using Cons.IH [OF f] Cons.prems(2) by simp
  show ?case
  proof (cases kfs)
    case Nil
    then show ?thesis using d by (simp add: continuous_orientations_def Let_def)
  next
    case (Cons k2 rest)
    then show ?thesis using d ih
      by (simp add: continuous_orientations_def Let_def)
  qed
qed

lemma tangent_pass_orientations:
  "map kf_orientation (tangent_pass E kfs i) = map kf_orientation kfs"
proof (induction E kfs i rule: tangent_pass.induct)
  case (1 E kfs i)
  show ?case
  proof (cases "i < length kfs")
    case True
    then show ?thesis
      using 1 [OF True refl refl refl]
      by (subst tangent_pass.simps)
         (simp add: Let_def computeTangent_def map_update list_update_same_conv)
  next
    case False
    then show ?thesis by (subst tangent_pass.simps) simp
  qed
qed

lemma continuous_orientations_map:
  assumes "map kf_orientation xs = map kf_orientation ys"
  shows "continuous_orientations xs = continuous_orientations ys"
proof -
  have "\<And>zs. continuous_orientations zs
          = successively (\<lambda>a b. Fin 0 \<le> quat_dot a b) (map kf_orientation zs)"
    by (simp add: continuous_orientations_def successively_map)
  then show ?thesis using assms by simp
qed

text \<open>
  C8. For every non-empty list of keyframes whose orientations have finite components,
  \<open>updateModifiedFrameValues\<close> returns, and in the list it leaves (as in the list after
  its first loop, the flip pass) every two consecutive orientations have a dot product
  that is not negative. The second loop writes tangents only.
\<close>

theorem updateModifiedFrameValues_continuous:
  assumes "keyFrames \<noteq> []" and "list_all (\<lambda>k. fin_quat (kf_orientation k)) keyFrames"
  shows "\<exists>kfs. updateModifiedFrameValues E keyFrames = Some kfs
               \<and> continuous_orientations kfs
               \<and> continuous_orientations (flip_pass (kf_orientation (hd keyFrames)) keyFrames)"
proof -
  have h: "fin_quat (kf_orientation (hd keyFrames))"
    using assms by (cases keyFrames) simp_all
  have c: "continuous_orientations (flip_pass (kf_orientation (hd keyFrames)) keyFrames)"
    using flip_pass_continuous [OF h assms(2)] by simp
  have "continuous_orientations
          (tangent_pass E (flip_pass (kf_orientation (hd keyFrames)) keyFrames) 0)
        = continuous_orientations (flip_pass (kf_orientation (hd keyFrames)) keyFrames)"
    by (rule continuous_orientations_map [OF tangent_pass_orientations])
  with c show ?thesis
    using assms(1) by (simp add: updateModifiedFrameValues_def)
qed

text \<open>
  Three keyframes facing \<open>(0,0,0,1)\<close>, \<open>(0,0,0,-1)\<close>, \<open>(0,0,0,1)\<close>: the second has dot
  product \<open>-1\<close> with the first and is negated by the pass.
\<close>

theorem updateModifiedFrameValues_continuous_witness:
  "[keyframe_facing 1 (Fin 0), keyframe_facing (- 1) (Fin 1), keyframe_facing 1 (Fin 2)] \<noteq> []
   \<and> list_all (\<lambda>k. fin_quat (kf_orientation k))
        [keyframe_facing 1 (Fin 0), keyframe_facing (- 1) (Fin 1), keyframe_facing 1 (Fin 2)]
   \<and> quat_dot (kf_orientation (keyframe_facing 1 (Fin 0)))
        (kf_orientation (keyframe_facing (- 1) (Fin 1))) = Fin (- 1)
   \<and> map kf_orientation
        (flip_pass (kf_orientation (keyframe_facing 1 (Fin 0)))
           [keyframe_facing 1 (Fin 0), keyframe_facing (- 1) (Fin 1), keyframe_facing 1 (Fin 2)])
       = [Quat (Fin 0) (Fin 0) (Fin 0) (Fin 1), Quat (Fin 0) (Fin 0) (Fin 0) (Fin 1),
          Quat (Fin 0) (Fin 0) (Fin 0) (Fin 1)]
   \<and> (\<exists>kfs. updateModifiedFrameValues ext0
          [keyframe_facing 1 (Fin 0), keyframe_facing (- 1) (Fin 1), keyframe_facing 1 (Fin 2)]
            = Some kfs
          \<and> continuous_orientations kfs)"
proof -
  let ?kfs = "[keyframe_facing 1 (Fin 0), keyframe_facing (- 1) (Fin 1), keyframe_facing 1 (Fin 2)]"
  have a: "?kfs \<noteq> []"
    by simp
  have b: "list_all (\<lambda>k. fin_quat (kf_orientation k)) ?kfs"
    by (simp add: keyframe_facing_def new_KeyFrame_def)
  have c: "\<exists>kfs. updateModifiedFrameValues ext0 ?kfs = Some kfs \<and> continuous_orientations kfs"
    using updateModifiedFrameValues_continuous [OF a b, of ext0] by blast
  have d: "quat_dot (kf_orientation (keyframe_facing 1 (Fin 0)))
        (kf_orientation (keyframe_facing (- 1) (Fin 1))) = Fin (- 1)"
    by (simp add: keyframe_facing_def new_KeyFrame_def)
  have e: "map kf_orientation (flip_pass (kf_orientation (keyframe_facing 1 (Fin 0))) ?kfs)
       = [Quat (Fin 0) (Fin 0) (Fin 0) (Fin 1), Quat (Fin 0) (Fin 0) (Fin 0) (Fin 1),
          Quat (Fin 0) (Fin 0) (Fin 0) (Fin 1)]"
    by (simp add: keyframe_facing_def new_KeyFrame_def flipOrientationIfNeeded_def Let_def)
  from a b c d e show ?thesis
    by blast
qed

section \<open>Bracket search\<close>

lemma related_back_0 [simp]: "related_back time kfs 0 = 0"
  by (subst related_back.simps) simp

text \<open>
  The second loop, started inside the vector: it returns an index not before the start,
  every keyframe it passed is earlier than \<open>time\<close>, and it stops at the last keyframe or at
  one that is not earlier than \<open>time\<close>.
\<close>

lemma related_forward_result:
  assumes "i < length kfs"
  shows "\<exists>r. related_forward time kfs i = Some r \<and> i \<le> r \<and> r < length kfs
             \<and> (\<forall>j. i \<le> j \<and> j < r \<longrightarrow> kf_time (kfs ! j) < time)
             \<and> (r = length kfs - 1 \<or> \<not> kf_time (kfs ! r) < time)"
  using assms
proof (induction time kfs i rule: related_forward.induct)
  case (1 time kfs i)
  show ?case
  proof (cases "kf_time (kfs ! i) < time \<and> i \<noteq> length kfs - 1")
    case True
    then have "i \<noteq> length kfs - 1" by simp
    then have lt: "i + 1 < length kfs" using "1.prems" by arith
    have "\<not> length kfs \<le> i" using "1.prems" by simp
    from "1.IH" [OF this _ _ lt] True
    obtain r where r: "related_forward time kfs (i + 1) = Some r" "i + 1 \<le> r" "r < length kfs"
      "\<forall>j. i + 1 \<le> j \<and> j < r \<longrightarrow> kf_time (kfs ! j) < time"
      "r = length kfs - 1 \<or> \<not> kf_time (kfs ! r) < time"
      by auto
    have "\<forall>j. i \<le> j \<and> j < r \<longrightarrow> kf_time (kfs ! j) < time"
    proof (intro allI impI)
      fix j assume j: "i \<le> j \<and> j < r"
      show "kf_time (kfs ! j) < time"
      proof (cases "j = i")
        case True
        then show ?thesis
          using \<open>kf_time (kfs ! i) < time \<and> i \<noteq> length kfs - 1\<close> by simp
      next
        case False
        then show ?thesis using j r(4) by simp
      qed
    qed
    moreover have "related_forward time kfs i = Some r"
      using True "1.prems" r(1) by (subst related_forward.simps) simp
    ultimately show ?thesis using r by auto
  next
    case False
    then have "related_forward time kfs i = Some i"
      using "1.prems" by (subst related_forward.simps) auto
    then show ?thesis using False "1.prems" by auto
  qed
qed

lemma strictly_increasing_nth:
  "strictly_increasing_times kfs \<Longrightarrow> i < j \<Longrightarrow> j < length kfs \<Longrightarrow>
     kf_time (kfs ! i) < kf_time (kfs ! j)"
  unfolding strictly_increasing_times_def by (rule sorted_wrt_nth_less)

text \<open>
  C7. For every non-empty track with strictly increasing times and every query time the
  search returns four indices \<open>(r0, r1, r2, r3)\<close> into the track with \<open>r1 = r2\<close> or \<open>r1\<close>
  just before \<open>r2\<close>. When the time lies between the first and the last keyframe's time,
  the keyframe at \<open>r1\<close> is not later and the one at \<open>r2\<close> not earlier than the time; before
  the first time both are the first keyframe, after the last time both are the last.
  \<open>r0\<close> is the index before \<open>r1\<close> (\<open>r1\<close> itself at the start) and \<open>r3\<close> the index after
  \<open>r2\<close> (\<open>r2\<close> itself at the end).
\<close>

theorem getRelatedKeyFramesForTime_bracket:
  assumes ne: "keyFrames \<noteq> []" and inc: "strictly_increasing_times keyFrames"
  shows "\<exists>r0 r1 r2 r3.
           getRelatedKeyFramesForTime time keyFrames = Some (r0, r1, r2, r3)
           \<and> r2 < length keyFrames \<and> (r1 = r2 \<or> r1 + 1 = r2)
           \<and> r0 = (if r1 = 0 then r1 else r1 - 1)
           \<and> r3 = (if r2 = length keyFrames - 1 then r2 else r2 + 1)
           \<and> (kf_time (hd keyFrames) \<le> time \<and> time \<le> kf_time (last keyFrames) \<longrightarrow>
                kf_time (keyFrames ! r1) \<le> time \<and> time \<le> kf_time (keyFrames ! r2))
           \<and> (time < kf_time (hd keyFrames) \<longrightarrow> r1 = 0 \<and> r2 = 0)
           \<and> (kf_time (last keyFrames) < time \<longrightarrow>
                r1 = length keyFrames - 1 \<and> r2 = length keyFrames - 1)"
proof -
  let ?n = "length keyFrames"
  let ?t = "\<lambda>i. kf_time (keyFrames ! i)"
  have n0: "0 < ?n" using ne by simp
  have hd0: "hd keyFrames = keyFrames ! 0" using ne by (simp add: hd_conv_nth)
  have lastn: "last keyFrames = keyFrames ! (?n - 1)" using ne by (simp add: last_conv_nth)
  from related_forward_result [OF n0, of time]
  obtain r where r: "related_forward time keyFrames 0 = Some r" "r < ?n"
    and before: "\<forall>j. j < r \<longrightarrow> ?t j < time"
    and stop: "r = ?n - 1 \<or> \<not> ?t r < time"
    by auto
  define r1 where "r1 = (if r \<noteq> 0 \<and> time < ?t r then r - 1 else r)"
  define r0 where "r0 = (if r1 \<noteq> 0 then r1 - 1 else r1)"
  define r3 where "r3 = (if r \<noteq> ?n - 1 then r + 1 else r)"
  have res: "getRelatedKeyFramesForTime time keyFrames = Some (r0, r1, r, r3)"
    using ne r(1) by (simp add: getRelatedKeyFramesForTime_def Let_def r1_def r0_def r3_def)
  have adj: "r1 = r \<or> r1 + 1 = r"
    by (auto simp: r1_def)
  have inrange: "?t r1 \<le> time \<and> time \<le> ?t r"
    if lo: "kf_time (hd keyFrames) \<le> time" and hi: "time \<le> kf_time (last keyFrames)"
  proof -
    have tn: "\<not> is_nan time" using lo flt_le_not_nan by blast
    have rn: "\<not> is_nan (?t r)"
    proof (cases "r = ?n - 1")
      case True
      then show ?thesis using hi lastn flt_le_not_nan by metis
    next
      case False
      then have "r < ?n - 1" using r(2) by arith
      then have "?t r < ?t (?n - 1)"
        using strictly_increasing_nth [OF inc, of r "?n - 1"] n0 by simp
      then show ?thesis using flt_less_not_nan by blast
    qed
    have up: "time \<le> ?t r"
    proof (cases "r = ?n - 1")
      case True
      then show ?thesis using hi lastn by simp
    next
      case False
      then have "\<not> ?t r < time" using stop by simp
      then show ?thesis using flt_linear [OF rn tn] by simp
    qed
    have low: "?t r1 \<le> time"
    proof (cases "r \<noteq> 0 \<and> time < ?t r")
      case True
      then have "r1 = r - 1" "r - 1 < r" by (simp_all add: r1_def)
      then show ?thesis using before flt_less_imp_le by metis
    next
      case False
      then have e: "r1 = r" by (auto simp: r1_def)
      show ?thesis
      proof (cases "r = 0")
        case True
        then show ?thesis using e lo hd0 by simp
      next
        case False
        then have "\<not> time < ?t r" using \<open>\<not> (r \<noteq> 0 \<and> time < ?t r)\<close> by simp
        then show ?thesis using e flt_linear [OF tn rn] by simp
      qed
    qed
    from low up show ?thesis ..
  qed
  have below: "r1 = 0 \<and> r = 0" if lo: "time < kf_time (hd keyFrames)"
  proof -
    have "r = 0"
    proof (rule ccontr)
      assume "r \<noteq> 0"
      then have "?t 0 < time" using before by simp
      then show False using lo hd0 flt_less_asym by metis
    qed
    then show ?thesis by (simp add: r1_def)
  qed
  have above: "r1 = ?n - 1 \<and> r = ?n - 1" if hi: "kf_time (last keyFrames) < time"
  proof -
    have e: "r = ?n - 1"
    proof (rule ccontr)
      assume a: "r \<noteq> ?n - 1"
      then have "r < ?n - 1" using r(2) by arith
      then have "?t r < ?t (?n - 1)"
        using strictly_increasing_nth [OF inc, of r "?n - 1"] n0 by simp
      then have "?t r < time" using hi lastn flt_less_trans by metis
      then show False using stop a by simp
    qed
    have "\<not> time < ?t r" using hi lastn e flt_less_asym by metis
    then show ?thesis using e by (simp add: r1_def)
  qed
  show ?thesis
    using res r(2) adj inrange below above
    by (simp add: r0_def r3_def)
qed

text \<open>Three keyframes at times 0, 1, 2, queried inside, outside and on a keyframe.\<close>

lemma line_track_increasing: "strictly_increasing_times line_track"
  by (simp add: line_track_def strictly_increasing_times_def new_KeyFrame_def)

lemma line_track_related:
  "getRelatedKeyFramesForTime (Fin (1 / 2)) line_track = Some (0, 0, 1, 2)"
  "getRelatedKeyFramesForTime (Fin (- 1)) line_track = Some (0, 0, 0, 1)"
  "getRelatedKeyFramesForTime (Fin 5) line_track = Some (1, 2, 2, 2)"
  "getRelatedKeyFramesForTime (Fin 1) line_track = Some (0, 1, 1, 2)"
  by (simp_all add: getRelatedKeyFramesForTime_def line_track_def related_forward.simps
      new_KeyFrame_def Let_def)

theorem getRelatedKeyFramesForTime_bracket_witness:
  "line_track \<noteq> [] \<and> strictly_increasing_times line_track
   \<and> kf_time (hd line_track) \<le> Fin (1 / 2) \<and> Fin (1 / 2) \<le> kf_time (last line_track)
   \<and> getRelatedKeyFramesForTime (Fin (1 / 2)) line_track = Some (0, 0, 1, 2)
   \<and> kf_time (line_track ! 0) \<le> Fin (1 / 2) \<and> Fin (1 / 2) \<le> kf_time (line_track ! 1)"
proof -
  have a: "line_track \<noteq> []"
    by (simp add: line_track_def)
  have b: "kf_time (hd line_track) \<le> Fin (1 / 2)" "Fin (1 / 2) \<le> kf_time (last line_track)"
    by (simp_all add: line_track_def new_KeyFrame_def)
  from getRelatedKeyFramesForTime_bracket [OF a line_track_increasing, of "Fin (1 / 2)"] b
  have "kf_time (line_track ! 0) \<le> Fin (1 / 2) \<and> Fin (1 / 2) \<le> kf_time (line_track ! 1)"
    by (simp add: line_track_related(1))
  with a b line_track_increasing line_track_related(1) show ?thesis
    by simp
qed

section \<open>Evaluation at the ends of the track\<close>

lemma computeSpline_fin:
  "fin_KeyFrame k1 \<Longrightarrow> fin_KeyFrame k2 \<Longrightarrow>
     fin_vec3 (fst (computeSpline k1 k2)) \<and> fin_vec3 (snd (computeSpline k1 k2))"
  by (auto simp: fin_KeyFrame_def fin_vec3_iff computeSpline_def Let_def minus_flt_def)

lemma hermite_at_zero:
  "fin_vec3 p \<Longrightarrow> fin_vec3 tg \<Longrightarrow> fin_vec3 v1 \<Longrightarrow> fin_vec3 v2 \<Longrightarrow>
     p + scale (Fin 0) (tg + scale (Fin 0) (v1 + scale (Fin 0) v2)) = p"
  by (auto simp: fin_vec3_iff)

text \<open>
  When the search returns the same keyframe for both ends of the bracket, \<open>dt\<close> is 0,
  \<open>alpha\<close> is 0 and the position is that keyframe's.
\<close>

lemma interpolate_at_degenerate:
  assumes "getRelatedKeyFramesForTime time keyFrames = Some (r0, k, k, r3)"
    and "fin_KeyFrame (keyFrames ! k)" and "Fin 0 < epsilon E"
  shows "\<exists>f. interpolate_at E time keyFrames = Some f
             \<and> position f = kf_position (keyFrames ! k)"
proof -
  obtain t where t: "kf_time (keyFrames ! k) = Fin t"
    using assms(2) by (auto simp: fin_KeyFrame_def is_fin_iff)
  have dt: "kf_time (keyFrames ! k) - kf_time (keyFrames ! k) = Fin 0"
    by (simp add: t minus_flt_def)
  have "fin_vec3 (fst (computeSpline (keyFrames ! k) (keyFrames ! k)))"
       "fin_vec3 (snd (computeSpline (keyFrames ! k) (keyFrames ! k)))"
    using computeSpline_fin [OF assms(2) assms(2)] by simp_all
  then have "kf_position (keyFrames ! k)
      + scale (Fin 0) (kf_tgP (keyFrames ! k)
          + scale (Fin 0) (fst (computeSpline (keyFrames ! k) (keyFrames ! k))
              + scale (Fin 0) (snd (computeSpline (keyFrames ! k) (keyFrames ! k)))))
      = kf_position (keyFrames ! k)"
    using assms(2) by (intro hermite_at_zero) (simp_all add: fin_KeyFrame_def)
  then show ?thesis
    using assms(1,3) dt by (simp add: interpolate_at_def Let_def)
qed

lemma related_at_first:
  assumes "keyFrames \<noteq> []"
  shows "\<exists>r0 r3. getRelatedKeyFramesForTime (kf_time (hd keyFrames)) keyFrames
           = Some (r0, 0, 0, r3)"
proof -
  have "related_forward (kf_time (hd keyFrames)) keyFrames 0 = Some 0"
    using assms by (subst related_forward.simps) (simp add: hd_conv_nth flt_less_irrefl)
  then show ?thesis
    using assms by (simp add: getRelatedKeyFramesForTime_def Let_def)
qed

lemma related_at_last:
  assumes ne: "keyFrames \<noteq> []" and inc: "strictly_increasing_times keyFrames"
  shows "\<exists>r0 r3. getRelatedKeyFramesForTime (kf_time (last keyFrames)) keyFrames
           = Some (r0, length keyFrames - 1, length keyFrames - 1, r3)"
proof -
  let ?n = "length keyFrames"
  let ?t = "\<lambda>i. kf_time (keyFrames ! i)"
  have n0: "0 < ?n" using ne by simp
  have lastn: "last keyFrames = keyFrames ! (?n - 1)" using ne by (simp add: last_conv_nth)
  from related_forward_result [OF n0, of "kf_time (last keyFrames)"]
  obtain r where r: "related_forward (kf_time (last keyFrames)) keyFrames 0 = Some r" "r < ?n"
    and stop: "r = ?n - 1 \<or> \<not> ?t r < kf_time (last keyFrames)"
    by auto
  have e: "r = ?n - 1"
  proof (rule ccontr)
    assume a: "r \<noteq> ?n - 1"
    then have "r < ?n - 1" using r(2) by arith
    then have "?t r < ?t (?n - 1)"
      using strictly_increasing_nth [OF inc, of r "?n - 1"] n0 by simp
    then show False using stop a lastn by simp
  qed
  have "\<not> kf_time (last keyFrames) < ?t (?n - 1)"
    using lastn flt_less_irrefl by simp
  then show ?thesis
    using ne r(1) e by (simp add: getRelatedKeyFramesForTime_def Let_def)
qed

lemma end_times_positions:
  assumes ne: "keyFrames \<noteq> []"
    and inc: "strictly_increasing_times keyFrames"
    and fin: "list_all fin_KeyFrame keyFrames"
    and eps: "Fin 0 < epsilon E"
  shows "(\<exists>r0 r3. getRelatedKeyFramesForTime (kf_time (hd keyFrames)) keyFrames
            = Some (r0, 0, 0, r3))
         \<and> (\<exists>f. interpolate_at E (kf_time (hd keyFrames)) keyFrames = Some f
              \<and> position f = kf_position (hd keyFrames))
         \<and> (\<exists>r0 r3. getRelatedKeyFramesForTime (kf_time (last keyFrames)) keyFrames
              = Some (r0, length keyFrames - 1, length keyFrames - 1, r3))
         \<and> (\<exists>f. interpolate_at E (kf_time (last keyFrames)) keyFrames = Some f
              \<and> position f = kf_position (last keyFrames))"
proof -
  have f0: "fin_KeyFrame (keyFrames ! 0)"
    and fl: "fin_KeyFrame (keyFrames ! (length keyFrames - 1))"
    using fin ne by (simp_all add: list_all_length)
  have a: "\<exists>r0 r3. getRelatedKeyFramesForTime (kf_time (hd keyFrames)) keyFrames
             = Some (r0, 0, 0, r3)"
    by (rule related_at_first [OF ne])
  have b: "\<exists>r0 r3. getRelatedKeyFramesForTime (kf_time (last keyFrames)) keyFrames
             = Some (r0, length keyFrames - 1, length keyFrames - 1, r3)"
    by (rule related_at_last [OF ne inc])
  have c: "\<exists>f. interpolate_at E (kf_time (hd keyFrames)) keyFrames = Some f
             \<and> position f = kf_position (keyFrames ! 0)"
    using a interpolate_at_degenerate [OF _ f0 eps] by blast
  have d: "\<exists>f. interpolate_at E (kf_time (last keyFrames)) keyFrames = Some f
             \<and> position f = kf_position (keyFrames ! (length keyFrames - 1))"
    using b interpolate_at_degenerate [OF _ fl eps] by blast
  from a b c d show ?thesis
    using ne by (simp add: hd_conv_nth last_conv_nth)
qed

text \<open>
  C6. For every track of at least two keyframes with strictly increasing times and
  finite positions, tangents and times, the search at \<open>firstTime()\<close> returns the first
  keyframe for both ends of the bracket and the position evaluated there is the first
  keyframe's position; at \<open>lastTime()\<close> the same holds with the last keyframe. (With
  \<open>dt = 0\<close> the code sets \<open>alpha = 0\<close>, for any positive \<open>epsilon\<close>.)
\<close>

theorem interpolate_at_end_times:
  assumes "2 \<le> length (keyframes st)"
    and "strictly_increasing_times (keyframes st)"
    and "list_all fin_KeyFrame (keyframes st)"
    and "Fin 0 < epsilon E"
  shows "(\<exists>r0 r3. getRelatedKeyFramesForTime (firstTime st) (keyframes st)
            = Some (r0, 0, 0, r3))
         \<and> (\<exists>f. interpolate_at E (firstTime st) (keyframes st) = Some f
              \<and> position f = kf_position (hd (keyframes st)))
         \<and> (\<exists>r0 r3. getRelatedKeyFramesForTime (lastTime st) (keyframes st)
              = Some (r0, length (keyframes st) - 1, length (keyframes st) - 1, r3))
         \<and> (\<exists>f. interpolate_at E (lastTime st) (keyframes st) = Some f
              \<and> position f = kf_position (last (keyframes st)))"
proof -
  have ne: "keyframes st \<noteq> []" using assms(1) by auto
  show ?thesis
    using end_times_positions [OF ne assms(2) assms(3) assms(4)] ne
    by (simp add: firstTime_def lastTime_def)
qed

text \<open>
  Three keyframes on a line at times 0, 1, 2: at time 0 the position is \<open>(0,0,0)\<close>, at
  time 2 it is \<open>(2,0,0)\<close>.
\<close>

theorem interpolate_at_end_times_witness:
  "2 \<le> length (keyframes (track_state line_track))
   \<and> strictly_increasing_times (keyframes (track_state line_track))
   \<and> list_all fin_KeyFrame (keyframes (track_state line_track))
   \<and> Fin 0 < epsilon ext0
   \<and> firstTime (track_state line_track) = Fin 0
   \<and> lastTime (track_state line_track) = Fin 2
   \<and> (\<exists>f. interpolate_at ext0 (Fin 0) line_track = Some f
          \<and> position f = Vec3 (Fin 0) (Fin 0) (Fin 0))
   \<and> (\<exists>f. interpolate_at ext0 (Fin 2) line_track = Some f
          \<and> position f = Vec3 (Fin 2) (Fin 0) (Fin 0))"
proof -
  let ?st = "track_state line_track"
  have a: "2 \<le> length (keyframes ?st)"
    by (simp add: track_state_def line_track_def)
  have b: "strictly_increasing_times (keyframes ?st)"
    using line_track_increasing by (simp add: track_state_def)
  have c: "list_all fin_KeyFrame (keyframes ?st)"
    by (simp add: track_state_def line_track_def fin_KeyFrame_def new_KeyFrame_def frame_at_def)
  have d: "Fin 0 < epsilon ext0"
    by (simp add: ext0_def)
  have e: "firstTime ?st = Fin 0" "lastTime ?st = Fin 2"
    by (simp_all add: firstTime_def lastTime_def track_state_def line_track_def new_KeyFrame_def)
  have f: "keyframes ?st = line_track"
    "kf_position (hd line_track) = Vec3 (Fin 0) (Fin 0) (Fin 0)"
    "kf_position (last line_track) = Vec3 (Fin 2) (Fin 0) (Fin 0)"
    by (simp_all add: track_state_def line_track_def new_KeyFrame_def frame_at_def)
  from interpolate_at_end_times [OF a b c d]
  have "(\<exists>f. interpolate_at ext0 (Fin 0) line_track = Some f
          \<and> position f = Vec3 (Fin 0) (Fin 0) (Fin 0))
   \<and> (\<exists>f. interpolate_at ext0 (Fin 2) line_track = Some f
          \<and> position f = Vec3 (Fin 2) (Fin 0) (Fin 0))"
    by (simp only: e f)
  with a b c d e show ?thesis
    by blast
qed

lemma distance2_sqrt_fin:
  "fin_vec3 u \<Longrightarrow> fin_vec3 v \<Longrightarrow> is_fin (flt_sqrt (distance2 u v))"
  by (auto simp: fin_vec3_iff minus_flt_def not_less intro: add_nonneg_nonneg)

lemma fin_vec3_ops:
  "fin_vec3 u \<Longrightarrow> fin_vec3 v \<Longrightarrow> fin_vec3 (u + v)"
  "fin_vec3 u \<Longrightarrow> fin_vec3 v \<Longrightarrow> fin_vec3 (u - v)"
  "is_fin c \<Longrightarrow> fin_vec3 v \<Longrightarrow> fin_vec3 (scale c v)"
  by (auto simp: fin_vec3_iff is_fin_iff minus_flt_def)

lemma computeTangent_fin:
  assumes "fin_pose kf" and "fin_pose prev" and "fin_pose next"
    and "\<And>v. fin_vec3 v \<Longrightarrow> fin_vec3 (vec_normalize E v)"
  shows "fin_KeyFrame (computeTangent E kf prev next)"
  using assms
  by (simp add: computeTangent_def Let_def fin_KeyFrame_def fin_pose_def fin_vec3_ops
      distance2_sqrt_fin)

lemma computeTangent_pose:
  "kf_position (computeTangent E kf prev next) = kf_position kf"
  "kf_time (computeTangent E kf prev next) = kf_time kf"
  by (simp_all add: computeTangent_def Let_def)

lemma fin_KeyFrame_pose: "fin_KeyFrame k \<Longrightarrow> fin_pose k"
  by (simp add: fin_KeyFrame_def fin_pose_def)

lemma tangent_pass_fin:
  assumes "\<forall>v. fin_vec3 v \<longrightarrow> fin_vec3 (vec_normalize E v)"
    and "\<forall>j < length kfs. fin_pose (kfs ! j)"
    and "\<forall>j < i. j < length kfs \<longrightarrow> fin_KeyFrame (kfs ! j)"
  shows "list_all fin_KeyFrame (tangent_pass E kfs i)
         \<and> map kf_position (tangent_pass E kfs i) = map kf_position kfs
         \<and> map kf_time (tangent_pass E kfs i) = map kf_time kfs"
  using assms
proof (induction E kfs i rule: tangent_pass.induct)
  case (1 E kfs i)
  show ?case
  proof (cases "i < length kfs")
    case False
    then have "tangent_pass E kfs i = kfs"
      by (subst tangent_pass.simps) simp
    moreover have "list_all fin_KeyFrame kfs"
      using False "1.prems"(3) by (simp add: list_all_length)
    ultimately show ?thesis by simp
  next
    case True
    define prev where "prev = (if i = 0 then kfs ! 0 else kfs ! (i - 1))"
    define kf' where "kf' = (if i + 1 < length kfs
                       then computeTangent E (kfs ! i) prev (kfs ! (i + 1))
                       else computeTangent E (kfs ! i) prev (kfs ! i))"
    have step: "tangent_pass E kfs i = tangent_pass E (kfs[i := kf']) (i + 1)"
      using True by (subst tangent_pass.simps) (simp add: Let_def prev_def kf'_def)
    have nrm: "\<And>v. fin_vec3 v \<Longrightarrow> fin_vec3 (vec_normalize E v)"
      using "1.prems"(1) by simp
    have fp: "fin_pose prev"
      using True "1.prems"(2) by (auto simp: prev_def)
    have fi: "fin_pose (kfs ! i)"
      using True "1.prems"(2) by simp
    have fk: "fin_KeyFrame kf'"
      using fp fi "1.prems"(2) nrm by (simp add: kf'_def computeTangent_fin)
    have pk: "kf_position kf' = kf_position (kfs ! i)" "kf_time kf' = kf_time (kfs ! i)"
      by (simp_all add: kf'_def computeTangent_pose)
    have p1: "\<forall>j < length (kfs[i := kf']). fin_pose ((kfs[i := kf']) ! j)"
      using True "1.prems"(2) fk by (auto simp: nth_list_update fin_KeyFrame_pose)
    have p2: "\<forall>j < i + 1. j < length (kfs[i := kf']) \<longrightarrow> fin_KeyFrame ((kfs[i := kf']) ! j)"
      using True "1.prems"(3) fk by (auto simp: nth_list_update less_Suc_eq)
    have ih: "list_all fin_KeyFrame (tangent_pass E (kfs[i := kf']) (i + 1))
         \<and> map kf_position (tangent_pass E (kfs[i := kf']) (i + 1)) = map kf_position (kfs[i := kf'])
         \<and> map kf_time (tangent_pass E (kfs[i := kf']) (i + 1)) = map kf_time (kfs[i := kf'])"
      using "1.IH" [OF True refl refl refl "1.prems"(1), folded prev_def, folded kf'_def] p1 p2
      by blast
    have same: "map kf_position (kfs[i := kf']) = map kf_position kfs"
               "map kf_time (kfs[i := kf']) = map kf_time kfs"
      using True pk by (simp_all add: map_update list_update_same_conv)
    show ?thesis
      using ih same by (simp add: step)
  qed
qed

lemma flip_pass_pose:
  "map kf_position (flip_pass q kfs) = map kf_position kfs"
  "map kf_time (flip_pass q kfs) = map kf_time kfs"
  by (induction kfs arbitrary: q) (simp_all add: Let_def flipOrientationIfNeeded_def)

text \<open>
  \<open>updateModifiedFrameValues\<close> leaves positions and times alone, and when \<open>normalize\<close> maps
  finite vectors to finite vectors, the position tangents it writes are finite.
\<close>

lemma updateModifiedFrameValues_fin:
  assumes "keyFrames \<noteq> []" and "list_all fin_pose keyFrames"
    and "\<forall>v. fin_vec3 v \<longrightarrow> fin_vec3 (vec_normalize E v)"
  shows "\<exists>kfs. updateModifiedFrameValues E keyFrames = Some kfs
               \<and> list_all fin_KeyFrame kfs
               \<and> map kf_position kfs = map kf_position keyFrames
               \<and> map kf_time kfs = map kf_time keyFrames"
proof -
  let ?fl = "flip_pass (kf_orientation (hd keyFrames)) keyFrames"
  have len: "length ?fl = length keyFrames"
    using flip_pass_pose(1) [of "kf_orientation (hd keyFrames)" keyFrames]
    by (metis length_map)
  have "\<forall>j < length ?fl. fin_pose (?fl ! j)"
  proof (intro allI impI)
    fix j assume j: "j < length ?fl"
    have "kf_position (?fl ! j) = kf_position (keyFrames ! j)"
      using j len flip_pass_pose(1) [of "kf_orientation (hd keyFrames)" keyFrames]
      by (metis nth_map)
    moreover have "kf_time (?fl ! j) = kf_time (keyFrames ! j)"
      using j len flip_pass_pose(2) [of "kf_orientation (hd keyFrames)" keyFrames]
      by (metis nth_map)
    moreover have "fin_pose (keyFrames ! j)"
      using assms(2) j len by (simp add: list_all_length)
    ultimately show "fin_pose (?fl ! j)"
      by (simp add: fin_pose_def)
  qed
  then have "list_all fin_KeyFrame (tangent_pass E ?fl 0)
         \<and> map kf_position (tangent_pass E ?fl 0) = map kf_position ?fl
         \<and> map kf_time (tangent_pass E ?fl 0) = map kf_time ?fl"
    using assms(3) by (intro tangent_pass_fin) simp_all
  then show ?thesis
    using assms(1) by (simp add: updateModifiedFrameValues_def flip_pass_pose)
qed

text \<open>
  The same on the keyframes as \<open>do_interpolate\<close> evaluates them, after
  \<open>updateModifiedFrameValues\<close> has written the tangents: finite positions and times are
  enough, when \<open>normalize\<close> maps finite vectors to finite vectors.
\<close>

lemma do_interpolate_end_times:
  assumes "2 \<le> length (keyframes st)"
    and "strictly_increasing_times (keyframes st)"
    and "list_all fin_pose (keyframes st)"
    and "\<forall>v. fin_vec3 v \<longrightarrow> fin_vec3 (vec_normalize E v)"
    and "Fin 0 < epsilon E"
  shows "\<exists>kfs. updateModifiedFrameValues E (keyframes st) = Some kfs
           \<and> (\<exists>f. interpolate_at E (firstTime st) kfs = Some f
                \<and> position f = kf_position (hd (keyframes st)))
           \<and> (\<exists>f. interpolate_at E (lastTime st) kfs = Some f
                \<and> position f = kf_position (last (keyframes st)))"
proof -
  have ne: "keyframes st \<noteq> []" using assms(1) by auto
  from updateModifiedFrameValues_fin [OF ne assms(3) assms(4)]
  obtain kfs where k: "updateModifiedFrameValues E (keyframes st) = Some kfs"
    "list_all fin_KeyFrame kfs"
    "map kf_position kfs = map kf_position (keyframes st)"
    "map kf_time kfs = map kf_time (keyframes st)"
    by blast
  have ne': "kfs \<noteq> []"
    using k(3) ne by auto
  have "sorted_wrt (<) (map kf_time kfs)"
    using assms(2) by (simp add: k(4) strictly_increasing_times_def sorted_wrt_map)
  then have inc: "strictly_increasing_times kfs"
    by (simp add: strictly_increasing_times_def sorted_wrt_map)
  have "hd (map kf_time kfs) = hd (map kf_time (keyframes st))"
    "last (map kf_time kfs) = last (map kf_time (keyframes st))"
    by (simp_all only: k(4))
  then have t: "kf_time (hd kfs) = firstTime st" "kf_time (last kfs) = lastTime st"
    using ne ne' by (simp_all add: firstTime_def lastTime_def hd_map last_map)
  have "hd (map kf_position kfs) = hd (map kf_position (keyframes st))"
    "last (map kf_position kfs) = last (map kf_position (keyframes st))"
    by (simp_all only: k(3))
  then have p: "kf_position (hd kfs) = kf_position (hd (keyframes st))"
    "kf_position (last kfs) = kf_position (last (keyframes st))"
    using ne ne' by (simp_all add: hd_map last_map)
  show ?thesis
    using end_times_positions [OF ne' inc k(2) assms(5)] k(1) by (simp add: t p)
qed

section \<open>A run of the sampling loop\<close>

lemma slow_interval: "sample_interval ext0 slow_state = Fin 1"
  by (simp add: sample_interval_def ext0_def slow_state_def track_state_def
      spec_interpolation_period_def)

lemma slow_times: "firstTime slow_state = Fin 0" "lastTime slow_state = Fin 2"
  by (simp_all add: slow_state_def track_state_def firstTime_def lastTime_def line_track_def
      new_KeyFrame_def)

lemma line_track_tangents: "updateModifiedFrameValues ext0 line_track = Some line_track_ready"
  by (simp add: updateModifiedFrameValues_def line_track_def line_track_ready_def
      new_KeyFrame_def frame_at_def flipOrientationIfNeeded_def Let_def tangent_pass.simps
      computeTangent_def ext0_def minus_flt_def)

lemma line_track_ready_related:
  "getRelatedKeyFramesForTime (Fin 0) line_track_ready = Some (0, 0, 0, 1)"
  "getRelatedKeyFramesForTime (Fin 1) line_track_ready = Some (0, 1, 1, 2)"
  "getRelatedKeyFramesForTime (Fin 2) line_track_ready = Some (1, 2, 2, 2)"
  "getRelatedKeyFramesForTime (Fin (1 / 2)) line_track_ready = Some (0, 0, 1, 2)"
  by (simp_all add: getRelatedKeyFramesForTime_def line_track_ready_def related_forward.simps
      new_KeyFrame_def Let_def)

lemma line_track_ready_positions:
  "map_option position (interpolate_at ext0 (Fin 0) line_track_ready)
     = Some (Vec3 (Fin 0) (Fin 0) (Fin 0))"
  "map_option position (interpolate_at ext0 (Fin 1) line_track_ready)
     = Some (Vec3 (Fin 1) (Fin 0) (Fin 0))"
  "map_option position (interpolate_at ext0 (Fin 2) line_track_ready)
     = Some (Vec3 (Fin 2) (Fin 0) (Fin 0))"
  "map_option position (interpolate_at ext0 (Fin (1 / 2)) line_track_ready)
     = Some (Vec3 (Fin (3 / 8)) (Fin 0) (Fin 0))"
  by (simp_all add: interpolate_at_def line_track_ready_related)
     (simp_all add: Let_def computeSpline_def line_track_ready_def new_KeyFrame_def frame_at_def
        ext0_def minus_flt_def)

text \<open>
  At one frame per second and speed 1 the step is one second: with fuel for four rounds
  \<open>do_interpolate\<close> returns the three samples at the times 0, 1 and 2, which are the
  keyframes' positions.
\<close>

lemma do_interpolate_slow:
  "\<exists>frames. do_interpolate 4 ext0 slow_state line_track = Some (frames, line_track_ready)
     \<and> map position frames
         = [Vec3 (Fin 0) (Fin 0) (Fin 0), Vec3 (Fin 1) (Fin 0) (Fin 0), Vec3 (Fin 2) (Fin 0) (Fin 0)]"
proof -
  obtain f0 where f0: "interpolate_at ext0 (Fin 0) line_track_ready = Some f0"
    "position f0 = Vec3 (Fin 0) (Fin 0) (Fin 0)"
    using line_track_ready_positions(1) by auto
  obtain f1 where f1: "interpolate_at ext0 (Fin 1) line_track_ready = Some f1"
    "position f1 = Vec3 (Fin 1) (Fin 0) (Fin 0)"
    using line_track_ready_positions(2) by auto
  obtain f2 where f2: "interpolate_at ext0 (Fin 2) line_track_ready = Some f2"
    "position f2 = Vec3 (Fin 2) (Fin 0) (Fin 0)"
    using line_track_ready_positions(3) by auto
  have "do_interpolate_loop 4 ext0 (Fin 1) (Fin 2) line_track_ready (Fin 0) [] = Some [f0, f1, f2]"
    by (simp add: numeral_nat f0(1) f1(1) f2(1))
  moreover have "line_track \<noteq> []"
    by (simp add: line_track_def)
  ultimately show ?thesis
    using f0(2) f1(2) f2(2)
    by (simp add: do_interpolate_def line_track_tangents slow_interval slow_times)
qed

section \<open>Smoothing a degenerate track\<close>

lemma flip_pass_length [simp]: "length (flip_pass q kfs) = length kfs"
  by (induction kfs arbitrary: q) (simp_all add: Let_def)

lemma tangent_pass_length [simp]: "length (tangent_pass E kfs i) = length kfs"
  using tangent_pass_orientations [of E kfs i] by (metis length_map)

lemma interpolate_at_total:
  assumes "keyFrames \<noteq> []"
  shows "\<exists>f. interpolate_at E time keyFrames = Some f"
proof -
  have "0 < length keyFrames" using assms by simp
  from related_forward_result [OF this, of time]
  obtain r where "related_forward time keyFrames 0 = Some r" by auto
  then show ?thesis
    using assms by (simp add: interpolate_at_def getRelatedKeyFramesForTime_def Let_def)
qed

text \<open>
  With a step of 0 the loop of \<open>do_interpolate\<close> never leaves a time below the bound:
  whatever the fuel, it does not return.
\<close>

lemma do_interpolate_loop_zero_step:
  assumes "keyFrames \<noteq> []" and "Fin t < lastT + Fin 0"
  shows "do_interpolate_loop n E (Fin 0) lastT keyFrames (Fin t) frames = None"
proof (induction n arbitrary: frames)
  case 0
  show ?case by simp
next
  case (Suc n)
  obtain f where f: "interpolate_at E (Fin t) keyFrames = Some f"
    using interpolate_at_total [OF assms(1)] by blast
  have "do_interpolate_loop (Suc n) E (Fin 0) lastT keyFrames (Fin t) frames
          = do_interpolate_loop n E (Fin 0) lastT keyFrames (Fin t + Fin 0) (frames @ [f])"
    using assms(2) by (simp only: do_interpolate_loop.simps f if_True option.case)
  also have "\<dots> = None"
    using Suc.IH [of "frames @ [f]"] by simp
  finally show ?case .
qed

lemma do_interpolate_zero_step:
  assumes "keyFrames \<noteq> []" and "sample_interval E st = Fin 0"
    and "firstTime st = Fin a" and "lastTime st = Fin b" and "a < b"
  shows "do_interpolate n E st keyFrames = None"
proof -
  define kfs where "kfs = tangent_pass E (flip_pass (kf_orientation (hd keyFrames)) keyFrames) 0"
  have "length kfs = length keyFrames"
    by (simp add: kfs_def)
  then have ne: "kfs \<noteq> []"
    using assms(1) by auto
  have k: "updateModifiedFrameValues E keyFrames = Some kfs"
    using assms(1) by (simp add: updateModifiedFrameValues_def kfs_def)
  have "do_interpolate_loop n E (Fin 0) (Fin b) kfs (Fin a) [] = None"
    using ne assms(5) by (intro do_interpolate_loop_zero_step) simp_all
  then show ?thesis
    using assms k by (simp add: do_interpolate_def)
qed


lemma smooth_applies:
  "2 \<le> length frames \<Longrightarrow> \<not> is_nan (smooth_ratio E st frames) \<Longrightarrow>
     smooth n E st frames =
       (case do_interpolate n E st
               (map (\<lambda>f. f\<lparr>kf_time := kf_time f * smooth_ratio E st frames\<rparr>)
                  (smooth_track (sample_interval E st) (Fin 0) [] frames)) of
          None \<Rightarrow> None
        | Some (frames', kfs) \<Rightarrow> Some (st, frames'))"
  by (simp add: smooth_def Let_def)

text \<open>
  A new duration of zero gives a NaN ratio only when the duration of the track is zero
  (or NaN) as well; over any other duration the ratio is infinite and the test
  \<open>is_nan(ratio)\<close> does not see it.
\<close>

lemma smooth_ratio_zero_duration:
  assumes "kf_time (last (smooth_track (sample_interval E st) (Fin 0) [] frames))
             - kf_time (hd (smooth_track (sample_interval E st) (Fin 0) [] frames)) = Fin 0"
    and "duration st = Fin d"
  shows "is_nan (smooth_ratio E st frames) = (d = 0)"
  using assms by (simp add: smooth_ratio_def Let_def is_nan_def)

lemma stalled_interval: "sample_interval ext0 stalled_state = Fin 0"
  by (simp add: sample_interval_def ext0_def stalled_state_def track_state_def
      spec_interpolation_period_def)

lemma stalled_times:
  "firstTime stalled_state = Fin 0" "lastTime stalled_state = Fin 1"
  "duration stalled_state = Fin 1"
  by (simp_all add: stalled_state_def track_state_def duration_def firstTime_def lastTime_def
      new_KeyFrame_def minus_flt_def)

lemma stalled_ratio: "smooth_ratio ext0 stalled_state [frame_at 0 0 0, frame_at 1 0 0] = PInf"
  by (simp add: smooth_ratio_def stalled_interval stalled_times new_KeyFrame_def minus_flt_def)

text \<open>
  On the same state \<open>interpolate()\<close> does not return either: its first \<open>do_interpolate\<close>
  already runs with the step 0.
\<close>

lemma interpolate_stalled:
  "interpolate n ext0 (stalled_state\<lparr>pathIsValid := False\<rparr>) = None"
proof -
  let ?st = "stalled_state\<lparr>pathIsValid := False\<rparr>"
  have "keyframes ?st \<noteq> []" "sample_interval ext0 ?st = Fin 0"
    "firstTime ?st = Fin 0" "lastTime ?st = Fin 1"
    using stalled_interval stalled_times
    by (simp_all add: stalled_state_def sample_interval_def firstTime_def lastTime_def
        track_state_def)
  then have "do_interpolate n ext0 ?st (keyframes ?st) = None"
    by (rule do_interpolate_zero_step) simp
  then show ?thesis
    by (simp add: interpolate_def)
qed

text \<open>
  \<open>smooth\<close> taken on its own, on a sequence that no run of \<open>interpolate()\<close> hands to it:
  two samples, on a state whose playback speed is 0, so that the step is 0 (the lemma
  above: \<open>interpolate()\<close> does not get as far as \<open>smooth\<close> on that state). The track
  that \<open>smooth\<close> builds has the times 0 and 0, the ratio is \<open>1 / 0\<close>, which is infinite
  and not NaN, and the test \<open>is_nan(ratio)\<close> lets it pass.
\<close>

lemma smooth_infinite_ratio_not_detected:
  "2 \<le> length [frame_at 0 0 0, frame_at 1 0 0]
   \<and> map kf_time (smooth_track (sample_interval ext0 stalled_state) (Fin 0) []
          [frame_at 0 0 0, frame_at 1 0 0]) = [Fin 0, Fin 0]
   \<and> duration stalled_state = Fin 1
   \<and> smooth_ratio ext0 stalled_state [frame_at 0 0 0, frame_at 1 0 0] = PInf
   \<and> \<not> is_nan (smooth_ratio ext0 stalled_state [frame_at 0 0 0, frame_at 1 0 0])
   \<and> smooth n ext0 stalled_state [frame_at 0 0 0, frame_at 1 0 0] = None"
proof -
  let ?frames = "[frame_at 0 0 0, frame_at 1 0 0]"
  let ?track = "smooth_track (sample_interval ext0 stalled_state) (Fin 0) [] ?frames"
  have len: "2 \<le> length ?frames"
    by simp
  have tr: "map kf_time ?track = [Fin 0, Fin 0]"
    by (simp add: stalled_interval new_KeyFrame_def)
  have nn: "\<not> is_nan (smooth_ratio ext0 stalled_state ?frames)"
    by (simp add: stalled_ratio is_nan_def)
  have ne: "map (\<lambda>f. f\<lparr>kf_time := kf_time f * smooth_ratio ext0 stalled_state ?frames\<rparr>) ?track
              \<noteq> []"
    by (simp add: stalled_interval)
  have "do_interpolate n ext0 stalled_state
          (map (\<lambda>f. f\<lparr>kf_time := kf_time f * smooth_ratio ext0 stalled_state ?frames\<rparr>) ?track)
        = None"
    using ne stalled_interval stalled_times(1) stalled_times(2)
    by (rule do_interpolate_zero_step) simp
  then have none: "smooth n ext0 stalled_state ?frames = None"
    by (simp only: smooth_applies [OF len nn] option.case)
  from len tr stalled_times(3) stalled_ratio nn none show ?thesis
    by (intro conjI)
qed

section \<open>Smoothing after a run of \<open>do_interpolate\<close>\<close>





















end
